theory Spec2Isabelle
  imports Complex_Main "HOL-Library.AList"
begin

section \<open>The level runtime of game.js\<close>

text \<open>
  A shallow embedding of \<^verbatim>\<open>src/game.js\<close>: the numeric helpers, the player
  controller (\<^verbatim>\<open>Player\<close>) and the level interpreter with its key dispatcher
  (\<^verbatim>\<open>LevelScene.create\<close>).

  JavaScript numbers are modelled by their exact values: colour channels as \<open>int\<close>,
  coordinates, speeds and opacities as \<open>real\<close>. The normalised direction of the
  player, where the rounding of doubles shows, is given twice: in exact arithmetic
  (\<open>direction\<close>) and with every operation rounded to the nearest double
  (\<open>direction_double\<close>). Infinities and NaN operands of comparisons are outside the
  model; the two non-numbers an opacity can become (\<^verbatim>\<open>undefined\<close> read from a
  description without the field, NaN after arithmetic on it) are values of \<open>jsval\<close>.
\<close>

subsection \<open>Simple math lambda functions (lines 18 to 28)\<close>

definition clamp :: "'a::linorder \<Rightarrow> 'a \<Rightarrow> 'a \<Rightarrow> 'a" where
  "clamp n lo hi = (if n < lo then lo else if n > hi then hi else n)"

definition min_js :: "'a::linorder \<Rightarrow> 'a \<Rightarrow> 'a" where
  "min_js a b = (if b < a then b else a)"

definition max_js :: "'a::linorder \<Rightarrow> 'a \<Rightarrow> 'a" where
  "max_js a b = (if b > a then b else a)"

text \<open>
  The operator \<^verbatim>\<open><<\<close> of JavaScript: the left operand is read as a signed
  32-bit integer, shifted by the count modulo 32, and the result is again read as a signed
  32-bit integer.
\<close>

definition shl :: "int \<Rightarrow> nat \<Rightarrow> int" where
  "shl a n = signed_take_bit 31 (push_bit (n mod 32) (signed_take_bit 31 a))"

definition colorCompose :: "int \<Rightarrow> int \<Rightarrow> int \<Rightarrow> int" where
  "colorCompose red green blue =
     (let c = clamp blue 0 255;
          c = c + shl (clamp green 0 255) 8;
          c = c + shl (clamp red 0 255) 16
      in c)"

subsection \<open>The player controller (lines 31 to 78)\<close>

datatype error = TypeError

text \<open>
  The image the player owns. Its physics body is \<open>None\<close> once the engine has torn the
  physics system down; \<^verbatim>\<open>setVelocityX\<close>, \<^verbatim>\<open>setVelocityY\<close> and the
  read of \<^verbatim>\<open>body.touching.down\<close> then throw, which is the error the source's
  comment on line 67 names.
\<close>

record phys_body =
  touching_down :: bool
  velocity_x :: real
  velocity_y :: real

record image =
  image_x :: real
  image_y :: real
  texture :: string
  collideWorldBounds :: bool
  image_tint :: "int option"
  body :: "phys_body option"

record player =
  sprite :: image
  moveUp :: bool
  moveRight :: bool
  moveDown :: bool
  moveLeft :: bool
  moveSpeed :: real
  jumpForce :: real

definition add_image :: "real \<Rightarrow> real \<Rightarrow> string \<Rightarrow> image" where
  "add_image x y tex =
     \<lparr>image_x = x, image_y = y, texture = tex, collideWorldBounds = False,
      image_tint = None,
      body = Some \<lparr>touching_down = False, velocity_x = 0, velocity_y = 0\<rparr>\<rparr>"

definition new_Player :: "image \<Rightarrow> player" where
  "new_Player s =
     \<lparr>sprite = s\<lparr>collideWorldBounds := True, image_tint := Some 0x00abcd\<rparr>,
      moveUp = False, moveRight = False, moveDown = False, moveLeft = False,
      moveSpeed = 100, jumpForce = 150\<rparr>"

definition setVelocityX :: "image \<Rightarrow> real \<Rightarrow> error + image" where
  "setVelocityX s v =
     (case body s of
        None \<Rightarrow> Inl TypeError
      | Some b \<Rightarrow> Inr (s\<lparr>body := Some (b\<lparr>velocity_x := v\<rparr>)\<rparr>))"

definition setVelocityY :: "image \<Rightarrow> real \<Rightarrow> error + image" where
  "setVelocityY s v =
     (case body s of
        None \<Rightarrow> Inl TypeError
      | Some b \<Rightarrow> Inr (s\<lparr>body := Some (b\<lparr>velocity_y := v\<rparr>)\<rparr>))"

definition body_touching_down :: "image \<Rightarrow> error + bool" where
  "body_touching_down s =
     (case body s of None \<Rightarrow> Inl TypeError | Some b \<Rightarrow> Inr (touching_down b))"

text \<open>Lines 50 to 59: the direction before it is normalised.\<close>

definition raw_direction :: "player \<Rightarrow> real \<times> real" where
  "raw_direction p =
     (let x = 0; y = 0;
          y = (if moveUp p then y - 1 else y);
          x = (if moveRight p then x + 1 else x);
          y = (if moveDown p then y + 1 else y);
          x = (if moveLeft p then x - 1 else x)
      in (x, y))"

text \<open>
  Lines 61 to 65: the length the direction is divided by (0 replaced by 1), and the
  direction divided by it.
\<close>

definition direction_length :: "player \<Rightarrow> real" where
  "direction_length p =
     (let (x, y) = raw_direction p;
          length = sqrt (x * x + y * y);
          length = (if length = 0 then 1 else length)
      in length)"

definition direction :: "player \<Rightarrow> real \<times> real" where
  "direction p =
     (let (x, y) = raw_direction p;
          length = direction_length p
      in (x / length, y / length))"

definition magnitude :: "real \<times> real \<Rightarrow> real" where
  "magnitude d = sqrt (fst d * fst d + snd d * snd d)"

text \<open>
  Lines 67 to 76. A throw inside \<^verbatim>\<open>try\<close> ends the block and is swallowed by the
  empty \<^verbatim>\<open>catch\<close>; what was written before the throw stays written. The right
  operand of \<^verbatim>\<open>&&\<close> is read only when the left one holds.
\<close>

definition move :: "player \<Rightarrow> player" where
  "move p =
     (let (dx, dy) = direction p in
      case setVelocityX (sprite p) (dx * moveSpeed p) of
        Inl e \<Rightarrow> p
      | Inr s1 \<Rightarrow>
          if dy < 0 then
            (case body_touching_down s1 of
               Inl e \<Rightarrow> p\<lparr>sprite := s1\<rparr>
             | Inr down \<Rightarrow>
                 if down then
                   (case setVelocityY s1 (jumpForce p * -1) of
                      Inl e \<Rightarrow> p\<lparr>sprite := s1\<rparr>
                    | Inr s2 \<Rightarrow> p\<lparr>sprite := s2\<rparr>)
                 else p\<lparr>sprite := s1\<rparr>)
          else p\<lparr>sprite := s1\<rparr>)"

subsection \<open>Lines 61 to 65 in double arithmetic\<close>

text \<open>
  A JavaScript number is an IEEE 754 double, and each arithmetic operation and
  \<^verbatim>\<open>Math.sqrt\<close> returns the exact result rounded to the nearest double, a tie going
  to the even significand. \<open>round_double\<close> is that rounding for a significand of 53
  bits; the exponent is not bounded, so overflow and subnormal numbers are outside this
  model (the numbers below are between 1/2 and 2).
\<close>

definition rne :: "real \<Rightarrow> int" where
  "rne v =
     (let f = \<lfloor>v\<rfloor>; r = v - of_int f
      in if r < 1 / 2 then f
         else if r > 1 / 2 then f + 1
         else if even f then f else f + 1)"

definition pow2 :: "int \<Rightarrow> real" where
  "pow2 e = (if 0 \<le> e then 2 ^ nat e else 1 / 2 ^ nat (- e))"

definition round_double :: "real \<Rightarrow> real" where
  "round_double v =
     (if v = 0 then 0
      else
        (let e = \<lfloor>log 2 \<bar>v\<bar>\<rfloor>;
             ulp = pow2 (e - 52)
         in ulp * of_int (rne (v / ulp))))"

text \<open>
  The components before normalisation are -1, 0 or 1 and exact in doubles; the products,
  the sum, the square root and the two quotients of lines 62 to 65 are rounded.
\<close>

definition direction_length_double :: "player \<Rightarrow> real" where
  "direction_length_double p =
     (let (x, y) = raw_direction p;
          length = round_double
                     (sqrt (round_double (round_double (x * x) + round_double (y * y))));
          length = (if length = 0 then 1 else length)
      in length)"

definition direction_double :: "player \<Rightarrow> real \<times> real" where
  "direction_double p =
     (let (x, y) = raw_direction p;
          length = direction_length_double p
      in (round_double (x / length), round_double (y / length)))"

subsection \<open>Level descriptions\<close>

text \<open>
  The level description file (\<^verbatim>\<open>data/scenes/<index>.json\<close>), as far as
  \<^verbatim>\<open>create\<close> reads it. An optional field of the file is an \<open>option\<close>; a
  sprite's colour has no opacity, a rect's has one. Identifiers, triggers, targets and
  actions are strings.
\<close>

record sprite_desc =
  sprite_x :: real
  sprite_y :: real
  sprite_sprite :: string
  sprite_red :: int
  sprite_green :: int
  sprite_blue :: int
  sprite_function :: "string option"
  sprite_id :: "string option"

record rect_desc =
  rect_x1 :: real
  rect_y1 :: real
  rect_x2 :: real
  rect_y2 :: real
  rect_red :: int
  rect_green :: int
  rect_blue :: int
  rect_alpha :: real
  rect_function :: "string option"
  rect_levelIndex :: "string option"
  rect_id :: "string option"

datatype element =
    PlayerE real real string
  | SpriteE sprite_desc
  | RectE rect_desc
  | OtherE string

record rule =
  trigger :: string
  target :: string
  action :: string

record description =
  elements :: "element list"
  interactions :: "rule list"

subsection \<open>Objects of the host engine\<close>

datatype jsval = Num real | NaN | Undefined

text \<open>\<^verbatim>\<open>v / 2\<close> on a value that may not be a number.\<close>

fun halve :: "jsval \<Rightarrow> jsval" where
  "halve (Num r) = Num (r / 2)"
| "halve NaN = NaN"
| "halve Undefined = NaN"

datatype shape =
    ImageShape real real string
  | RectShape real real real real int

text \<open>
  A live object of the level, with the fields this program reads or writes. Every object
  of the level is put into a physics group as soon as it is made, so each has a collision
  body; \<open>body_enable\<close> is that body's \<^verbatim>\<open>enable\<close> flag. \<open>alpha\<close> is the
  property \<^verbatim>\<open>alpha\<close> of the object, which lines 217, 252 and 258 read and write;
  \<open>fillAlpha\<close> is the opacity of a rectangle's fill, which a rectangle is made with and
  an image does not have.
\<close>

record gameobj =
  shape :: shape
  origin :: "(real \<times> real) option"
  tint :: "int option"
  alpha :: jsval
  fillAlpha :: "real option"
  active :: bool
  body_enable :: bool
  obj_id :: "string option"
  obj_levelIndex :: "string option"
  destroyed :: bool

text \<open>
  The host engine (Phaser 3) is not part of the repository; its constructors and its
  \<^verbatim>\<open>alpha\<close> property are modelled after the engine the code calls. A new object
  has \<^verbatim>\<open>alpha\<close> 1, is active, and its collision body is enabled. The last argument
  of \<^verbatim>\<open>add.rectangle\<close> is the opacity of the fill: it is stored in
  \<open>fillAlpha\<close> and leaves \<^verbatim>\<open>alpha\<close> at 1. (Section 4.1 of the specification
  reads that argument as the object's opacity; the engine does not.)
\<close>

definition physics_add_image :: "real \<Rightarrow> real \<Rightarrow> string \<Rightarrow> gameobj" where
  "physics_add_image x y tex =
     \<lparr>shape = ImageShape x y tex, origin = None, tint = None, alpha = Num 1,
      fillAlpha = None, active = True, body_enable = True, obj_id = None,
      obj_levelIndex = None, destroyed = False\<rparr>"

definition add_rectangle ::
  "real \<Rightarrow> real \<Rightarrow> real \<Rightarrow> real \<Rightarrow> int \<Rightarrow> real \<Rightarrow> gameobj" where
  "add_rectangle x y w h fillColor fillAlpha' =
     \<lparr>shape = RectShape x y w h fillColor, origin = None, tint = None,
      alpha = Num 1, fillAlpha = Some fillAlpha', active = True, body_enable = True,
      obj_id = None, obj_levelIndex = None, destroyed = False\<rparr>"

text \<open>
  An assignment to \<^verbatim>\<open>alpha\<close> runs the engine's setter, which stores
  \<^verbatim>\<open>Math.max(0, Math.min(1, value))\<close>: a number clamped to the range 0 to 1, and
  NaN for a value that is not a number.
\<close>

fun engine_clamp :: "jsval \<Rightarrow> jsval" where
  "engine_clamp (Num r) = Num (max 0 (min 1 r))"
| "engine_clamp NaN = NaN"
| "engine_clamp Undefined = NaN"

definition set_alpha :: "jsval \<Rightarrow> gameobj \<Rightarrow> gameobj" where
  "set_alpha v ob = ob\<lparr>alpha := engine_clamp v\<rparr>"

subsection \<open>The level interpreter (lines 116 to 226 and 269 to 270)\<close>

text \<open>
  The state \<^verbatim>\<open>create\<close> builds. Objects are shared between the groups and the
  object table, so they live in a store (\<open>objs\<close>) and are named by their index in it.
  The tables are association lists with one entry per key, kept in the order in which
  the keys were first assigned; the program only looks keys up and never enumerates a
  table, so the order is the model's own. The image of the player belongs to the
  \<^verbatim>\<open>Player\<close> alone and is kept inside it.

  Both tables are plain JavaScript objects (lines 129 and 130), so they inherit the
  members of \<^verbatim>\<open>Object.prototype\<close>. An assignment to the key
  \<^verbatim>\<open>__proto__\<close> makes no entry: it replaces the table's prototype by the
  assigned object, and a later read of that key returns this object. The lists keep such
  an assignment under the key \<^verbatim>\<open>__proto__\<close>, where a read finds it; the
  entries of the table proper (\<open>own_entries\<close>) are those under all other keys.
\<close>

record level =
  objs :: "gameobj list"
  blocks :: "nat list"
  doors :: "nat list"
  ghosts :: "nat list"
  keys :: "nat list"
  objectTable :: "(string \<times> element \<times> nat) list"
  interactionsTable :: "(string \<times> string \<times> string) list"
  the_player :: "player option"

definition own_entries :: "(string \<times> 'a) list \<Rightarrow> (string \<times> 'a) list" where
  "own_entries table = filter (\<lambda>entry. fst entry \<noteq> ''__proto__'') table"

definition modify :: "nat \<Rightarrow> (gameobj \<Rightarrow> gameobj) \<Rightarrow> level \<Rightarrow> level" where
  "modify h f st = st\<lparr>objs := (objs st)[h := f (objs st ! h)]\<rparr>"

text \<open>\<^verbatim>\<open>if (o.id)\<close>: an absent and an empty identifier are both falsy.\<close>

fun truthy :: "string option \<Rightarrow> bool" where
  "truthy None = False"
| "truthy (Some i) = (i \<noteq> [])"

text \<open>Lines 166 to 175.\<close>

record rect =
  rect_x :: real
  rect_y :: real
  rect_w :: real
  rect_h :: real

definition normalize :: "rect_desc \<Rightarrow> rect" where
  "normalize d =
     (let xmin = min_js (rect_x1 d) (rect_x2 d);
          ymin = min_js (rect_y1 d) (rect_y2 d);
          xmax = max_js (rect_x1 d) (rect_x2 d);
          ymax = max_js (rect_y1 d) (rect_y2 d)
      in \<lparr>rect_x = xmin, rect_y = ymin, rect_w = xmax - xmin, rect_h = ymax - ymin\<rparr>)"

text \<open>Lines 144 and 145.\<close>

definition sprite_object :: "sprite_desc \<Rightarrow> gameobj" where
  "sprite_object d =
     (physics_add_image (sprite_x d) (sprite_y d) (sprite_sprite d))
       \<lparr>tint := Some (colorCompose (sprite_red d) (sprite_green d) (sprite_blue d))\<rparr>"

text \<open>Lines 178 to 181.\<close>

definition rect_object :: "rect_desc \<Rightarrow> gameobj" where
  "rect_object d =
     (let rect = normalize d in
        (add_rectangle (rect_x rect) (rect_y rect) (rect_w rect) (rect_h rect)
           (colorCompose (rect_red d) (rect_green d) (rect_blue d))
           (clamp (rect_alpha d) 0 1))
          \<lparr>origin := Some (0, 0)\<rparr>)"

text \<open>Lines 157 to 161 and 197 to 201.\<close>

definition register :: "string option \<Rightarrow> element \<Rightarrow> nat \<Rightarrow> level \<Rightarrow> level" where
  "register i e h st =
     (if truthy i then
        (case i of
           None \<Rightarrow> st
         | Some k \<Rightarrow>
             modify h (\<lambda>s. s\<lparr>obj_id := i\<rparr>)
               (st\<lparr>objectTable := AList.update k (e, h) (objectTable st)\<rparr>))
      else st)"

text \<open>The body of the loop over the elements (lines 134 to 206).\<close>

fun element_step :: "level \<Rightarrow> element \<Rightarrow> level" where
  "element_step st (PlayerE px py tex) =
     st\<lparr>the_player := Some (new_Player (add_image px py tex))\<rparr>"
| "element_step st (SpriteE d) =
     (let s = length (objs st);
          st = st\<lparr>objs := objs st @ [sprite_object d]\<rparr>;
          st = (if sprite_function d = Some ''key''
                then st\<lparr>keys := keys st @ [s]\<rparr>
                else st\<lparr>ghosts := ghosts st @ [s]\<rparr>)
      in register (sprite_id d) (SpriteE d) s st)"
| "element_step st (RectE d) =
     (let r = length (objs st);
          st = st\<lparr>objs := objs st @ [rect_object d]\<rparr>;
          st = (if rect_function d = Some ''wall''
                then st\<lparr>blocks := blocks st @ [r]\<rparr>
                else if rect_function d = Some ''door''
                then modify r (\<lambda>ob. ob\<lparr>obj_levelIndex := rect_levelIndex d\<rparr>)
                       (st\<lparr>doors := doors st @ [r]\<rparr>)
                else st\<lparr>ghosts := ghosts st @ [r]\<rparr>)
      in register (rect_id d) (RectE d) r st)"
| "element_step st (OtherE t) = st"

definition elements_pass :: "level \<Rightarrow> element list \<Rightarrow> level" where
  "elements_pass st es = foldl element_step st es"

text \<open>
  The body of the loop over the interactions (lines 211 to 225). Line 217 throws when
  the table has no entry for the target: \<^verbatim>\<open>target\<close> is then undefined, or a
  member the table inherits, which has no property \<^verbatim>\<open>obj\<close>.
\<close>

definition lock :: "gameobj \<Rightarrow> gameobj" where
  "lock ob = (set_alpha (halve (alpha ob)) ob)\<lparr>active := False, body_enable := False\<rparr>"

definition interaction_step :: "level \<Rightarrow> rule \<Rightarrow> error + level" where
  "interaction_step st r =
     (let st = st\<lparr>interactionsTable :=
                   AList.update (trigger r) (target r, action r) (interactionsTable st)\<rparr>;
          target = map_of (objectTable st) (target r)
      in if action r = ''enable'' then
           (case target of
              None \<Rightarrow> Inl TypeError
            | Some (desc, obj) \<Rightarrow> Inr (modify obj lock st))
         else Inr st)"

fun interactions_pass :: "level \<Rightarrow> rule list \<Rightarrow> error + level" where
  "interactions_pass st [] = Inr st"
| "interactions_pass st (r # rs) =
     (case interaction_step st r of
        Inl e \<Rightarrow> Inl e
      | Inr st' \<Rightarrow> interactions_pass st' rs)"

text \<open>Line 270.\<close>

definition disable_ghosts :: "level \<Rightarrow> level" where
  "disable_ghosts st =
     foldl (\<lambda>st g. modify g (\<lambda>ob. ob\<lparr>body_enable := False\<rparr>) st) st (ghosts st)"

text \<open>
  \<^verbatim>\<open>create\<close>. The argument \<open>prev\<close> is \<^verbatim>\<open>this.player\<close> on entry:
  \<open>None\<close> in a new scene, the player of the level before after a restart. Line 228
  reads \<^verbatim>\<open>this.player.sprite\<close> and throws when no player was ever made.
\<close>

definition new_level :: "player option \<Rightarrow> level" where
  "new_level prev =
     \<lparr>objs = [], blocks = [], doors = [], ghosts = [], keys = [], objectTable = [],
      interactionsTable = [], the_player = prev\<rparr>"

definition create :: "player option \<Rightarrow> description \<Rightarrow> error + level" where
  "create prev d =
     (let st = elements_pass (new_level prev) (elements d) in
      case interactions_pass st (interactions d) of
        Inl e \<Rightarrow> Inl e
      | Inr st \<Rightarrow>
          (case the_player st of
             None \<Rightarrow> Inl TypeError
           | Some p \<Rightarrow> Inr (disable_ghosts st)))"

subsection \<open>The key dispatcher (lines 238 to 267)\<close>

text \<open>
  \<^verbatim>\<open>key.id\<close> used as a property name: the missing identifier of a key that was
  never registered reads as the string \<^verbatim>\<open>undefined\<close>.
\<close>

fun property_name :: "string option \<Rightarrow> string" where
  "property_name None = ''undefined''"
| "property_name (Some i) = i"

text \<open>
  Modelled from the spec: \<^verbatim>\<open>key.destroy()\<close> of the host engine, which is not part
  of the repository. The object ceases to exist; the store keeps its last fields and
  records the fact in \<open>destroyed\<close>.
\<close>

definition destroy :: "nat \<Rightarrow> level \<Rightarrow> level" where
  "destroy k st = modify k (\<lambda>ob. ob\<lparr>destroyed := True\<rparr>) st"

text \<open>\<^verbatim>\<open>target.desc.color.alpha\<close>: only the colour of a rect has the field.\<close>

fun desc_alpha :: "element \<Rightarrow> jsval" where
  "desc_alpha (RectE d) = Num (rect_alpha d)"
| "desc_alpha (SpriteE d) = Undefined"
| "desc_alpha (PlayerE px py tex) = Undefined"
| "desc_alpha (OtherE t) = Undefined"

definition unlock :: "element \<Rightarrow> gameobj \<Rightarrow> gameobj" where
  "unlock desc ob = (set_alpha (desc_alpha desc) ob)\<lparr>active := True, body_enable := True\<rparr>"

text \<open>
  The property names every plain object inherits from \<^verbatim>\<open>Object.prototype\<close>. A
  read of \<^verbatim>\<open>interactionsTable[key.id]\<close> (line 242) that finds no entry finds
  such a member if the name is one of these; and once a rule with the trigger
  \<^verbatim>\<open>__proto__\<close> has replaced the prototype by its \<^verbatim>\<open>{target, action}\<close>, the
  names \<^verbatim>\<open>target\<close> and \<^verbatim>\<open>action\<close> are found as well. What is found is a
  function, an object or a string without the properties \<^verbatim>\<open>target\<close> and
  \<^verbatim>\<open>action\<close>, so line 242 does not throw, the key is destroyed and the
  \<^verbatim>\<open>switch\<close> takes its default branch.
\<close>

definition object_prototype_names :: "string list" where
  "object_prototype_names =
     [''constructor'', ''__defineGetter__'', ''__defineSetter__'', ''hasOwnProperty'',
      ''__lookupGetter__'', ''__lookupSetter__'', ''isPrototypeOf'',
      ''propertyIsEnumerable'', ''toString'', ''valueOf'', ''__proto__'',
      ''toLocaleString'']"

definition inherited :: "(string \<times> string \<times> string) list \<Rightarrow> string \<Rightarrow> bool" where
  "inherited table name =
     (name \<in> set object_prototype_names
      \<or> (map_of table ''__proto__'' \<noteq> None \<and> (name = ''target'' \<or> name = ''action'')))"

text \<open>
  The callback of the overlap of the player with a key. An error carries the state at the
  throw: the throw on a key without a rule comes before the key is destroyed, the throw on
  a rule without a target after it.
\<close>

definition key_overlap :: "level \<Rightarrow> nat \<Rightarrow> (error \<times> level) + level" where
  "key_overlap st key =
     (let name = property_name (obj_id (objs st ! key)) in
      case map_of (interactionsTable st) name of
        None \<Rightarrow>
          if inherited (interactionsTable st) name then Inr (destroy key st)
          else Inl (TypeError, st)
      | Some (tgt, act) \<Rightarrow>
          (let target = map_of (objectTable st) tgt;
               st = destroy key st
           in if act = ''enable'' then
                (case target of
                   None \<Rightarrow> Inl (TypeError, st)
                 | Some (desc, obj) \<Rightarrow> Inr (modify obj (unlock desc) st))
              else if act = ''disable'' then
                (case target of
                   None \<Rightarrow> Inl (TypeError, st)
                 | Some (desc, obj) \<Rightarrow> Inr (modify obj lock st))
              else Inr st))"

text \<open>
  Modelled from the spec: the delivery of overlap events by the host engine, which is not
  part of the repository. The engine reports the overlap of the player with a member of
  the \<^verbatim>\<open>keys\<close> group that still exists, and runs the callback on it; for an object
  that was destroyed it reports nothing.
\<close>

definition overlap_event :: "level \<Rightarrow> nat \<Rightarrow> (error \<times> level) + level" where
  "overlap_event st key =
     (if key \<in> set (keys st) \<and> key < length (objs st) \<and> \<not> destroyed (objs st ! key)
      then key_overlap st key
      else Inr st)"

definition state_after :: "(error \<times> level) + level \<Rightarrow> level" where
  "state_after r = (case r of Inl (e, st) \<Rightarrow> st | Inr st \<Rightarrow> st)"

subsection \<open>Vocabulary of the specification\<close>

text \<open>
  The identifier under which the elements pass enters an element into the object table:
  that of a sprite or a rect whose identifier is present and not empty.
\<close>

fun registered_id :: "element \<Rightarrow> string option" where
  "registered_id (SpriteE d) = (if truthy (sprite_id d) then sprite_id d else None)"
| "registered_id (RectE d) = (if truthy (rect_id d) then rect_id d else None)"
| "registered_id (PlayerE px py tex) = None"
| "registered_id (OtherE t) = None"

fun element_ids :: "element list \<Rightarrow> string list" where
  "element_ids [] = []"
| "element_ids (e # es) =
     (case registered_id e of None \<Rightarrow> element_ids es | Some k \<Rightarrow> k # element_ids es)"


text \<open>The elements the elements pass enters into the object table, in order.\<close>

definition id_bearing :: "element list \<Rightarrow> element list" where
  "id_bearing es = filter (\<lambda>e. registered_id e \<noteq> None) es"

text \<open>
  The object the elements pass leaves in the store for an element (none for a player or
  an unknown type): the constructed object with the door's level index and the
  identifier set.
\<close>

fun object_of :: "element \<Rightarrow> gameobj list" where
  "object_of (SpriteE d) = [(sprite_object d)\<lparr>obj_id := registered_id (SpriteE d)\<rparr>]"
| "object_of (RectE d) =
     [(rect_object d)\<lparr>obj_levelIndex :=
          (if rect_function d = Some ''door'' then rect_levelIndex d else None),
        obj_id := registered_id (RectE d)\<rparr>]"
| "object_of (PlayerE px py tex) = []"
| "object_of (OtherE t) = []"

text \<open>
  The fields of an object that nothing writes after the elements pass, and two invariants
  of the state: an entry of the object table names an object of the store that carries
  the entry's identifier, and the members of the groups are objects of the store.
\<close>

definition static_part ::
  "gameobj \<Rightarrow>
     shape \<times> (real \<times> real) option \<times> int option \<times> real option \<times> string option \<times> string option"
  where
  "static_part ob =
     (shape ob, origin ob, tint ob, fillAlpha ob, obj_id ob, obj_levelIndex ob)"

definition table_ok :: "level \<Rightarrow> bool" where
  "table_ok st =
     (\<forall>k e ob. map_of (objectTable st) k = Some (e, ob) \<longrightarrow>
        ob < length (objs st) \<and> obj_id (objs st ! ob) = Some k)"

definition groups_ok :: "level \<Rightarrow> bool" where
  "groups_ok st =
     (\<forall>g \<in> set (blocks st) \<union> set (doors st) \<union> set (ghosts st) \<union> set (keys st).
        g < length (objs st))"

text \<open>Line 211 alone: the rule entered into the interaction table.\<close>

definition enter_rule :: "rule \<Rightarrow> level \<Rightarrow> level" where
  "enter_rule r st =
     st\<lparr>interactionsTable :=
          AList.update (trigger r) (target r, action r) (interactionsTable st)\<rparr>"

text \<open>
  A run of overlap events, each delivered by the engine as \<open>overlap_event\<close> describes; an
  event whose callback throws leaves the state as it was at the throw.
\<close>

fun events :: "level \<Rightarrow> nat list \<Rightarrow> level" where
  "events st [] = st"
| "events st (k # ks) = events (state_after (overlap_event st k)) ks"

subsection \<open>Example levels\<close>

text \<open>
  The scenario of the specification: a player, a key \<^verbatim>\<open>k1\<close> and a door
  \<^verbatim>\<open>door1\<close> of authored opacity \<open>a\<close> that the key enables; and variations of
  it: a level with two elements of one identifier and two rules of one trigger, a level
  whose only rule names a target that does not exist, a level whose only key has no
  rule, a level of decorations, and that level with a rule that makes
  \<^verbatim>\<open>create\<close> throw.
\<close>

definition scenario_key :: sprite_desc where
  "scenario_key =
     \<lparr>sprite_x = 100, sprite_y = 200, sprite_sprite = ''key'', sprite_red = 255,
      sprite_green = 200, sprite_blue = 0, sprite_function = Some ''key'',
      sprite_id = Some ''k1''\<rparr>"

definition scenario_door :: "real \<Rightarrow> rect_desc" where
  "scenario_door a =
     \<lparr>rect_x1 = 300, rect_y1 = 100, rect_x2 = 340, rect_y2 = 180, rect_red = 90,
      rect_green = 60, rect_blue = 30, rect_alpha = a, rect_function = Some ''door'',
      rect_levelIndex = Some ''2'', rect_id = Some ''door1''\<rparr>"

definition scenario :: "real \<Rightarrow> description" where
  "scenario a =
     \<lparr>elements = [PlayerE 10 20 ''player'', SpriteE scenario_key, RectE (scenario_door a)],
      interactions = [\<lparr>trigger = ''k1'', target = ''door1'', action = ''enable''\<rparr>]\<rparr>"

definition duplicate_level :: description where
  "duplicate_level =
     \<lparr>elements = [PlayerE 10 20 ''player'', RectE (scenario_door 1),
                  RectE ((scenario_door 1)\<lparr>rect_x1 := 500, rect_x2 := 540\<rparr>)],
      interactions = [\<lparr>trigger = ''k1'', target = ''door1'', action = ''disable''\<rparr>,
                      \<lparr>trigger = ''k1'', target = ''door1'', action = ''enable''\<rparr>]\<rparr>"

definition dangling_level :: "string \<Rightarrow> description" where
  "dangling_level act =
     \<lparr>elements = [PlayerE 10 20 ''player'', SpriteE scenario_key],
      interactions = [\<lparr>trigger = ''k1'', target = ''nowhere'', action = act\<rparr>]\<rparr>"

definition stray_key_level :: "string \<Rightarrow> description" where
  "stray_key_level i =
     \<lparr>elements = [PlayerE 10 20 ''player'', SpriteE (scenario_key\<lparr>sprite_id := Some i\<rparr>)],
      interactions = []\<rparr>"



section \<open>Properties\<close>

subsection \<open>Colour packing\<close>

lemma clamp_range: "lo \<le> hi \<Longrightarrow> lo \<le> clamp n lo hi \<and> clamp n lo hi \<le> hi"
  by (auto simp: clamp_def)

lemma shl_small:
  assumes "0 \<le> a" "a \<le> 255" "n \<le> 16"
  shows "shl a n = a * 2 ^ n"
proof -
  have 1: "signed_take_bit 31 a = a"
    using assms by (intro signed_take_bit_int_eq_self) auto
  have "a * 2 ^ n \<le> 255 * 2 ^ 16"
    using assms by (intro mult_mono power_increasing) auto
  then have 2: "a * 2 ^ n < 2 ^ 31" by simp
  have 3: "- (2 ^ 31) \<le> a * 2 ^ n"
  proof -
    have "- (2 ^ 31) \<le> (0::int)" by simp
    also have "0 \<le> a * 2 ^ n" using assms(1) by simp
    finally show ?thesis .
  qed
  have "n mod 32 = n" using assms(3) by simp
  then show ?thesis
    unfolding shl_def 1 using 2 3 by (simp add: push_bit_eq_mult signed_take_bit_int_eq_self)
qed

lemma colorCompose_eq:
  "colorCompose r g b = clamp b 0 255 + 256 * clamp g 0 255 + 65536 * clamp r 0 255"
  using clamp_range[of 0 255 g] clamp_range[of 0 255 r]
  by (simp add: colorCompose_def Let_def shl_small)

lemma low_byte:
  fixes b k :: int
  assumes "0 \<le> b" "b \<le> 255"
  shows "(b + 256 * k) mod 256 = b" and "(b + 256 * k) div 256 = k"
  using assms by simp_all

lemma channels:
  fixes r g b :: int
  assumes "0 \<le> r" "r \<le> 255" "0 \<le> g" "g \<le> 255" "0 \<le> b" "b \<le> 255"
  shows "(b + 256 * g + 65536 * r) mod 256 = b"
    and "(b + 256 * g + 65536 * r) div 256 mod 256 = g"
    and "(b + 256 * g + 65536 * r) div 65536 mod 256 = r"
proof -
  have e: "b + 256 * g + 65536 * r = b + 256 * (g + 256 * r)" by simp
  show "(b + 256 * g + 65536 * r) mod 256 = b"
    using low_byte(1)[OF assms(5,6)] by (simp only: e)
  have d: "(b + 256 * g + 65536 * r) div 256 = g + 256 * r"
    using low_byte(2)[OF assms(5,6)] by (simp only: e)
  show "(b + 256 * g + 65536 * r) div 256 mod 256 = g"
    using low_byte(1)[OF assms(3,4)] by (simp only: d)
  have "(g + 256 * r) div 256 = r"
    using low_byte(2)[OF assms(3,4)] .
  then have "(b + 256 * g + 65536 * r) div 256 div 256 = r"
    by (simp only: d)
  then have "(b + 256 * g + 65536 * r) div 65536 = r"
    by (simp add: div_mult2_eq[symmetric])
  then show "(b + 256 * g + 65536 * r) div 65536 mod 256 = r"
    using assms(1,2) by simp
qed

lemma rect_object_alpha:
  "fillAlpha (rect_object d) = Some (clamp (rect_alpha d) 0 1)" "alpha (rect_object d) = Num 1"
  by (simp_all add: rect_object_def add_rectangle_def Let_def)

text \<open>
  Claim C7. For all integer inputs the packed colour is the sum of the three channels,
  each clamped to the range 0 to 255 and then shifted (blue, green shifted by 8, red
  shifted by 16), so the three bytes of the result are the clamped channels; the opacity
  a rectangle is made with (the last argument on line 180, which the engine keeps as the
  opacity of the fill) is the authored one clamped to the range 0 to 1; and
  \<^verbatim>\<open>colorCompose(300, -10, 128)\<close> packs red 255, green 0 and blue 128.
\<close>

theorem colorCompose_clamped:
  "colorCompose r g b = clamp b 0 255 + shl (clamp g 0 255) 8 + shl (clamp r 0 255) 16
   \<and> colorCompose r g b div 65536 mod 256 = clamp r 0 255
   \<and> colorCompose r g b div 256 mod 256 = clamp g 0 255
   \<and> colorCompose r g b mod 256 = clamp b 0 255
   \<and> 0 \<le> clamp r 0 255 \<and> clamp r 0 255 \<le> 255
   \<and> 0 \<le> clamp g 0 255 \<and> clamp g 0 255 \<le> 255
   \<and> 0 \<le> clamp b 0 255 \<and> clamp b 0 255 \<le> 255
   \<and> fillAlpha (rect_object d) = Some (clamp (rect_alpha d) 0 1)
   \<and> 0 \<le> clamp (rect_alpha d) 0 1 \<and> clamp (rect_alpha d) 0 1 \<le> 1
   \<and> colorCompose 300 (- 10) 128 = 255 * 65536 + 0 * 256 + 128"
proof -
  have r: "0 \<le> clamp r 0 255" "clamp r 0 255 \<le> 255"
    and g: "0 \<le> clamp g 0 255" "clamp g 0 255 \<le> 255"
    and b: "0 \<le> clamp b 0 255" "clamp b 0 255 \<le> 255"
    using clamp_range[of 0 255 r] clamp_range[of 0 255 g] clamp_range[of 0 255 b]
    by simp_all
  have a: "0 \<le> clamp (rect_alpha d) 0 1" "clamp (rect_alpha d) 0 1 \<le> 1"
    using clamp_range[of 0 1 "rect_alpha d"] by simp_all
  have 1: "colorCompose r g b
             = clamp b 0 255 + shl (clamp g 0 255) 8 + shl (clamp r 0 255) 16"
    by (simp add: colorCompose_def Let_def)
  have 2: "colorCompose 300 (- 10) 128 = 255 * 65536 + 0 * 256 + 128"
    by (simp add: colorCompose_eq clamp_def)
  show ?thesis
    using r g b a 1 2 channels[OF r g b] rect_object_alpha(1)[of d]
    by (simp only: colorCompose_eq simp_thms)
qed

subsection \<open>The player controller\<close>

lemma raw_direction_eq:
  "raw_direction p =
     ((if moveRight p then 1 else 0) - (if moveLeft p then 1 else 0),
      (if moveDown p then 1 else 0) - (if moveUp p then 1 else 0))"
  by (simp add: raw_direction_def)

lemma direction_length_cases:
  "direction_length p =
     (if moveRight p = moveLeft p then 1
      else if moveUp p = moveDown p then 1 else sqrt 2)"
  by (simp add: direction_length_def raw_direction_eq)

lemma direction_cases:
  "direction p =
     (let dx = (if moveRight p then 1 else 0) - (if moveLeft p then 1 else 0);
          dy = (if moveDown p then 1 else 0) - (if moveUp p then 1 else 0)
      in if moveRight p = moveLeft p \<or> moveUp p = moveDown p then (dx, dy)
         else (dx / sqrt 2, dy / sqrt 2))"
  by (simp add: direction_def direction_length_cases raw_direction_eq Let_def)

lemma diagonal_unit: "sqrt (1 / sqrt 2 * (1 / sqrt 2) + 1 / sqrt 2 * (1 / sqrt 2)) = 1"
proof -
  have "1 / sqrt 2 * (1 / sqrt 2) = 1 / 2"
    by (simp add: field_simps)
  then show ?thesis by simp
qed

lemma magnitude_direction:
  "magnitude (direction p) =
     (if moveUp p = moveDown p \<and> moveRight p = moveLeft p then 0 else 1)"
  using diagonal_unit
  by (auto simp add: magnitude_def direction_cases Let_def)

lemma direction_zero:
  "(direction p = (0, 0)) = (moveUp p = moveDown p \<and> moveRight p = moveLeft p)"
  by (auto simp add: direction_cases Let_def)

lemma direction_length_pos: "1 \<le> direction_length p"
  by (simp add: direction_length_cases)

lemma direction_sprite_update [simp]: "direction (p\<lparr>sprite := s\<rparr>) = direction p"
  by (simp add: direction_def direction_length_def raw_direction_def)

lemma move_no_body: "body (sprite p) = None \<Longrightarrow> move p = p"
  by (simp add: move_def setVelocityX_def split: prod.splits)

lemma move_body:
  "body (sprite p) = Some b \<Longrightarrow>
   move p =
     p\<lparr>sprite := (sprite p)\<lparr>body := Some (b\<lparr>velocity_x := fst (direction p) * moveSpeed p,
       velocity_y := (if snd (direction p) < 0 \<and> touching_down b then - jumpForce p
                      else velocity_y b)\<rparr>)\<rparr>\<rparr>"
  by (simp add: move_def setVelocityX_def setVelocityY_def body_touching_down_def
      split: prod.splits)

subsection \<open>The direction in double arithmetic\<close>

lemma rne_of_int [simp]: "rne (of_int n) = n"
  by (simp add: rne_def)

lemma pow2_powr: "pow2 e = 2 powr (of_int e)"
  by (simp add: pow2_def powr_int)

lemma round_double_scaled:
  assumes "v \<noteq> 0" and "pow2 e \<le> \<bar>v\<bar>" and "\<bar>v\<bar> < pow2 (e + 1)"
  shows "round_double v = pow2 (e - 52) * of_int (rne (v / pow2 (e - 52)))"
proof -
  have "\<lfloor>log 2 \<bar>v\<bar>\<rfloor> = e"
    using assms by (simp add: floor_log_eq_powr_iff pow2_powr)
  then show ?thesis
    using assms(1) by (simp add: round_double_def Let_def)
qed

lemma round_double_0 [simp]: "round_double 0 = 0"
  by (simp add: round_double_def)

lemma round_double_1 [simp]: "round_double 1 = 1"
proof -
  have "round_double 1 = pow2 (0 - 52) * of_int (rne (1 / pow2 (0 - 52)))"
    by (rule round_double_scaled) (simp_all add: pow2_def)
  also have "1 / pow2 (0 - 52) = of_int (2 ^ 52)"
    by (simp add: pow2_def)
  finally show ?thesis
    by (simp only: rne_of_int) (simp add: pow2_def)
qed

lemma round_double_m1 [simp]: "round_double (- 1) = - 1"
proof -
  have "round_double (- 1) = pow2 (0 - 52) * of_int (rne (- 1 / pow2 (0 - 52)))"
    by (rule round_double_scaled) (simp_all add: pow2_def)
  also have "- 1 / pow2 (0 - 52) = of_int (- (2 ^ 52))"
    by (simp add: pow2_def)
  finally show ?thesis
    by (simp only: rne_of_int) (simp add: pow2_def)
qed

lemma round_double_2 [simp]: "round_double 2 = 2"
proof -
  have "round_double 2 = pow2 (1 - 52) * of_int (rne (2 / pow2 (1 - 52)))"
    by (rule round_double_scaled) (simp_all add: pow2_def)
  also have "2 / pow2 (1 - 52) = of_int (2 ^ 52)"
    by (simp add: pow2_def)
  finally show ?thesis
    by (simp only: rne_of_int) (simp add: pow2_def)
qed

text \<open>The square root of 2 lies between two neighbouring doubles, nearer to the upper.\<close>

lemma sqrt2_scaled_bounds:
  "6369051672525772 + 1 / 2 < sqrt 2 * 2 ^ 52" "sqrt 2 * 2 ^ 52 < 6369051672525773"
proof -
  have "sqrt (2 * (2 ^ 52)\<^sup>2) = sqrt 2 * sqrt ((2 ^ 52)\<^sup>2)"
    by (rule real_sqrt_mult)
  also have "sqrt ((2 ^ 52)\<^sup>2) = \<bar>2 ^ 52\<bar>"
    by (rule real_sqrt_abs)
  finally have e: "sqrt 2 * 2 ^ 52 = sqrt (2 * (2 ^ 52)\<^sup>2)"
    by simp
  have "(6369051672525772 + 1 / 2)\<^sup>2 < (2 * (2 ^ 52)\<^sup>2 :: real)"
    by (simp add: power2_eq_square)
  then show "6369051672525772 + 1 / 2 < sqrt 2 * 2 ^ 52"
    unfolding e by (rule real_less_rsqrt)
  have "(2 * (2 ^ 52)\<^sup>2 :: real) < 6369051672525773\<^sup>2"
    by (simp add: power2_eq_square)
  then show "sqrt 2 * 2 ^ 52 < 6369051672525773"
    unfolding e by (intro real_less_lsqrt) simp_all
qed

lemma rne_sqrt2: "rne (sqrt 2 * 2 ^ 52) = 6369051672525773"
proof -
  have f: "\<lfloor>sqrt 2 * 2 ^ 52\<rfloor> = 6369051672525772"
    using sqrt2_scaled_bounds by (simp add: floor_eq_iff)
  show ?thesis
    using sqrt2_scaled_bounds(1) unfolding rne_def Let_def f by simp
qed

lemma round_double_sqrt2: "round_double (sqrt 2) = 6369051672525773 / 2 ^ 52"
proof -
  have "1 \<le> sqrt 2" by simp
  moreover have "sqrt 2 < 2"
    by (rule real_less_lsqrt) simp_all
  ultimately have "round_double (sqrt 2)
      = pow2 (0 - 52) * of_int (rne (sqrt 2 / pow2 (0 - 52)))"
    by (intro round_double_scaled) (simp_all add: pow2_def)
  also have "sqrt 2 / pow2 (0 - 52) = sqrt 2 * 2 ^ 52"
    by (simp add: pow2_def)
  finally show ?thesis
    by (simp only: rne_sqrt2) (simp add: pow2_def)
qed

lemma rne_quot: "rne (2 ^ 105 / 6369051672525773) = 6369051672525772"
proof -
  have f: "\<lfloor>(2 ^ 105 / 6369051672525773 :: real)\<rfloor> = 6369051672525772"
    by (simp add: floor_eq_iff field_simps)
  show ?thesis
    unfolding rne_def Let_def f by (simp add: field_simps)
qed

lemma round_double_inv:
  "round_double (1 / (6369051672525773 / 2 ^ 52)) = 6369051672525772 / 2 ^ 53"
proof -
  let ?x = "1 / (6369051672525773 / 2 ^ 52) :: real"
  have "round_double ?x = pow2 (- 1 - 52) * of_int (rne (?x / pow2 (- 1 - 52)))"
    by (rule round_double_scaled) (simp_all add: pow2_def field_simps)
  also have "?x / pow2 (- 1 - 52) = 2 ^ 105 / 6369051672525773"
    by (simp add: pow2_def)
  finally show ?thesis
    by (simp only: rne_quot) (simp add: pow2_def)
qed

lemma rne_quot_neg: "rne (- (2 ^ 105 / 6369051672525773)) = - 6369051672525772"
proof -
  have f: "\<lfloor>(- (2 ^ 105 / 6369051672525773) :: real)\<rfloor> = - 6369051672525773"
    by (simp add: floor_eq_iff field_simps)
  show ?thesis
    unfolding rne_def Let_def f by (simp add: field_simps)
qed

lemma round_double_inv_neg:
  "round_double (- 1 / (6369051672525773 / 2 ^ 52)) = - (6369051672525772 / 2 ^ 53)"
proof -
  let ?x = "- 1 / (6369051672525773 / 2 ^ 52) :: real"
  have "round_double ?x = pow2 (- 1 - 52) * of_int (rne (?x / pow2 (- 1 - 52)))"
    by (rule round_double_scaled) (simp_all add: pow2_def field_simps)
  also have "?x / pow2 (- 1 - 52) = - (2 ^ 105 / 6369051672525773)"
    by (simp add: pow2_def)
  finally show ?thesis
    by (simp only: rne_quot_neg) (simp add: pow2_def)
qed

lemma direction_length_double_cases:
  "direction_length_double p =
     (if moveRight p = moveLeft p \<or> moveUp p = moveDown p then 1
      else 6369051672525773 / 2 ^ 52)"
  by (simp add: direction_length_double_def raw_direction_eq round_double_sqrt2)

lemma direction_double_cases:
  "direction_double p =
     (let dx = (if moveRight p then 1 else 0) - (if moveLeft p then 1 else 0);
          dy = (if moveDown p then 1 else 0) - (if moveUp p then 1 else 0)
      in if moveRight p = moveLeft p \<or> moveUp p = moveDown p then (dx, dy)
         else (dx * (6369051672525772 / 2 ^ 53), dy * (6369051672525772 / 2 ^ 53)))"
  using round_double_inv round_double_inv_neg
  by (simp add: direction_double_def direction_length_double_cases raw_direction_eq Let_def)

lemma direction_double_exact:
  "moveRight p = moveLeft p \<or> moveUp p = moveDown p \<Longrightarrow> direction_double p = direction p"
  by (auto simp: direction_double_cases direction_cases Let_def)

lemma diagonal_below_one:
  "sqrt (6369051672525772 / 2 ^ 53 * (6369051672525772 / 2 ^ 53)
       + 6369051672525772 / 2 ^ 53 * (6369051672525772 / 2 ^ 53)) < 1"
  "1 - 1 / 2 ^ 52 < sqrt (6369051672525772 / 2 ^ 53 * (6369051672525772 / 2 ^ 53)
       + 6369051672525772 / 2 ^ 53 * (6369051672525772 / 2 ^ 53))"
proof -
  show "sqrt (6369051672525772 / 2 ^ 53 * (6369051672525772 / 2 ^ 53)
       + 6369051672525772 / 2 ^ 53 * (6369051672525772 / 2 ^ 53)) < 1"
    by (rule real_less_lsqrt) simp_all
  show "1 - 1 / 2 ^ 52 < sqrt (6369051672525772 / 2 ^ 53 * (6369051672525772 / 2 ^ 53)
       + 6369051672525772 / 2 ^ 53 * (6369051672525772 / 2 ^ 53))"
    by (rule real_less_rsqrt) (simp add: power2_eq_square)
qed

lemma magnitude_direction_double:
  "magnitude (direction_double p) =
     (if moveUp p = moveDown p \<and> moveRight p = moveLeft p then 0
      else if moveUp p = moveDown p \<or> moveRight p = moveLeft p then 1
      else sqrt (6369051672525772 / 2 ^ 53 * (6369051672525772 / 2 ^ 53)
             + 6369051672525772 / 2 ^ 53 * (6369051672525772 / 2 ^ 53)))"
  by (auto simp add: magnitude_def direction_double_cases Let_def)

lemma direction_double_zero:
  "(direction_double p = (0, 0)) = (moveUp p = moveDown p \<and> moveRight p = moveLeft p)"
  by (auto simp add: direction_double_cases Let_def)

lemma direction_length_double_pos: "1 \<le> direction_length_double p"
  by (simp add: direction_length_double_cases)

text \<open>
  Claim C5, as the code has it. For all 16 combinations of the four flags, the components
  of the direction before normalisation are -1, 0 or 1 and the length it is divided by is
  at least 1 (so never 0, and the division is defined). The normalised direction that
  \<^verbatim>\<open>move\<close> computes in doubles is the zero vector exactly when the flags cancel on
  both axes (up equals down and right equals left, which includes all flags false). Its
  magnitude is at most 1: 0 when the flags cancel on both axes, exactly 1 when they cancel
  on exactly one axis, and on the four diagonals, where each component is plus or minus
  6369051672525772 / 2^53 (printed 0.7071067811865475), strictly between 1 - 2^-52 and
  1. Off the diagonals the doubles are the exact values; in exact arithmetic the
  magnitude is 0 when the flags cancel on both axes and 1 otherwise.
\<close>

theorem direction_magnitude:
  "fst (raw_direction p) \<in> {- 1, 0, 1} \<and> snd (raw_direction p) \<in> {- 1, 0, 1}
   \<and> 1 \<le> direction_length_double p
   \<and> magnitude (direction_double p) \<le> 1
   \<and> (direction_double p = (0, 0)) = (moveUp p = moveDown p \<and> moveRight p = moveLeft p)
   \<and> magnitude (direction_double p) =
       (if moveUp p = moveDown p \<and> moveRight p = moveLeft p then 0
        else if moveUp p = moveDown p \<or> moveRight p = moveLeft p then 1
        else sqrt (6369051672525772 / 2 ^ 53 * (6369051672525772 / 2 ^ 53)
               + 6369051672525772 / 2 ^ 53 * (6369051672525772 / 2 ^ 53)))
   \<and> 1 - 1 / 2 ^ 52 < sqrt (6369051672525772 / 2 ^ 53 * (6369051672525772 / 2 ^ 53)
               + 6369051672525772 / 2 ^ 53 * (6369051672525772 / 2 ^ 53))
   \<and> sqrt (6369051672525772 / 2 ^ 53 * (6369051672525772 / 2 ^ 53)
               + 6369051672525772 / 2 ^ 53 * (6369051672525772 / 2 ^ 53)) < 1
   \<and> (if moveUp p = moveDown p \<or> moveRight p = moveLeft p
       then direction_double p = direction p
       else fst (direction_double p) = fst (raw_direction p) * (6369051672525772 / 2 ^ 53)
            \<and> snd (direction_double p) = snd (raw_direction p) * (6369051672525772 / 2 ^ 53))
   \<and> 1 \<le> direction_length p
   \<and> magnitude (direction p) =
       (if moveUp p = moveDown p \<and> moveRight p = moveLeft p then 0 else 1)"
proof -
  have 1: "fst (raw_direction p) \<in> {- 1, 0, 1}" "snd (raw_direction p) \<in> {- 1, 0, 1}"
    by (simp_all add: raw_direction_eq)
  have 2: "magnitude (direction_double p) \<le> 1"
    using diagonal_below_one(1) by (simp add: magnitude_direction_double)
  have 3: "(if moveUp p = moveDown p \<or> moveRight p = moveLeft p
       then direction_double p = direction p
       else fst (direction_double p) = fst (raw_direction p) * (6369051672525772 / 2 ^ 53)
            \<and> snd (direction_double p) = snd (raw_direction p) * (6369051672525772 / 2 ^ 53))"
  proof (cases "moveUp p = moveDown p \<or> moveRight p = moveLeft p")
    case True
    then show ?thesis
      using direction_double_exact[of p] by auto
  next
    case False
    then show ?thesis
      by (simp add: direction_double_cases raw_direction_eq Let_def)
  qed
  show ?thesis
    using 1 2 3 direction_length_double_pos[of p] direction_double_zero[of p]
      magnitude_direction_double[of p] diagonal_below_one direction_length_pos[of p]
      magnitude_direction[of p]
    by (simp only: simp_thms)
qed

text \<open>
  The claim as the specification states it fails. With right and left both held, not all
  flags are false, yet the direction is the zero vector and its magnitude is 0, not 1.
  With up and right held the magnitude of the computed direction is below 1.
\<close>

theorem direction_magnitude_counterexample:
  "moveRight ((new_Player (add_image 0 0 ''player''))\<lparr>moveRight := True, moveLeft := True\<rparr>)
   \<and> magnitude (direction_double
        ((new_Player (add_image 0 0 ''player''))\<lparr>moveRight := True, moveLeft := True\<rparr>)) = 0
   \<and> magnitude (direction
        ((new_Player (add_image 0 0 ''player''))\<lparr>moveRight := True, moveLeft := True\<rparr>)) = 0
   \<and> magnitude (direction_double
        ((new_Player (add_image 0 0 ''player''))\<lparr>moveUp := True, moveRight := True\<rparr>)) < 1"
  using diagonal_below_one(1)
  by (simp add: magnitude_direction magnitude_direction_double new_Player_def)

text \<open>
  Claim C8. A call of \<^verbatim>\<open>move\<close> while the image of the player has no physics body
  returns normally and leaves the player, image included, as it was; a later call, once
  the image has a body \<open>b\<close> again, sets the horizontal velocity from the direction and
  applies the jump impulse when the direction points up and the body touches the ground,
  as any call with a body does.
\<close>

theorem move_without_body:
  "body (sprite p) = None \<Longrightarrow>
   move p = p
   \<and> move ((move p)\<lparr>sprite := (sprite (move p))\<lparr>body := Some b\<rparr>\<rparr>) =
       p\<lparr>sprite := (sprite p)\<lparr>body := Some (b\<lparr>velocity_x := fst (direction p) * moveSpeed p,
           velocity_y := (if snd (direction p) < 0 \<and> touching_down b then - jumpForce p
                          else velocity_y b)\<rparr>)\<rparr>\<rparr>"
  by (simp add: move_no_body move_body)

theorem move_without_body_witness:
  "body (sprite ((new_Player ((add_image 3 4 ''player'')\<lparr>body := None\<rparr>))\<lparr>moveUp := True\<rparr>)) = None
   \<and> move ((new_Player ((add_image 3 4 ''player'')\<lparr>body := None\<rparr>))\<lparr>moveUp := True\<rparr>)
       = (new_Player ((add_image 3 4 ''player'')\<lparr>body := None\<rparr>))\<lparr>moveUp := True\<rparr>
   \<and> body (sprite (move ((new_Player ((add_image 3 4 ''player'')\<lparr>body := None\<rparr>))
         \<lparr>moveUp := True,
          sprite := (add_image 3 4 ''player'')
            \<lparr>body := Some \<lparr>touching_down = True, velocity_x = 7, velocity_y = 0\<rparr>\<rparr>\<rparr>)))
       = Some \<lparr>touching_down = True, velocity_x = 0, velocity_y = - 150\<rparr>"
proof -
  let ?p = "(new_Player ((add_image 3 4 ''player'')\<lparr>body := None\<rparr>))\<lparr>moveUp := True\<rparr>"
  let ?b = "\<lparr>touching_down = True, velocity_x = 7, velocity_y = 0\<rparr>"
  have h: "body (sprite ?p) = None"
    by (simp add: new_Player_def add_image_def)
  have d: "direction ?p = (0, - 1)"
    by (simp add: direction_cases new_Player_def)
  have s: "(sprite ?p)\<lparr>body := Some ?b\<rparr>
             = (add_image 3 4 ''player'')\<lparr>body := Some ?b, collideWorldBounds := True,
                 image_tint := Some 0x00abcd\<rparr>"
    by (simp add: new_Player_def add_image_def)
  show ?thesis
    using move_without_body[OF h, of ?b] h
    by (simp add: d new_Player_def add_image_def move_body direction_cases)
qed

text \<open>
  Claim C10. Whenever up and down are both set, the vertical component of the direction
  is 0 and \<^verbatim>\<open>move\<close> writes at most the horizontal velocity: without a body it
  changes nothing, and with a body \<open>b\<close> the vertical velocity stays what it was, whether
  or not \<open>b\<close> touches the ground. If moreover right equals left, the direction is the
  zero vector and the horizontal velocity is set to 0; otherwise the direction is
  horizontal and of length 1.
\<close>

theorem opposing_flags_cancel:
  "moveUp p \<Longrightarrow> moveDown p \<Longrightarrow>
   snd (direction p) = 0
   \<and> move p =
       (case body (sprite p) of
          None \<Rightarrow> p
        | Some b \<Rightarrow>
            p\<lparr>sprite := (sprite p)\<lparr>body :=
                Some (b\<lparr>velocity_x := fst (direction p) * moveSpeed p\<rparr>)\<rparr>\<rparr>)
   \<and> (if moveRight p = moveLeft p
       then direction p = (0, 0)
            \<and> move p =
                (case body (sprite p) of
                   None \<Rightarrow> p
                 | Some b \<Rightarrow> p\<lparr>sprite := (sprite p)\<lparr>body := Some (b\<lparr>velocity_x := 0\<rparr>)\<rparr>\<rparr>)
       else magnitude (direction p) = 1)"
proof -
  assume up: "moveUp p" and down: "moveDown p"
  have y: "snd (direction p) = 0"
    using up down by (simp add: direction_cases Let_def)
  have m: "move p =
       (case body (sprite p) of
          None \<Rightarrow> p
        | Some b \<Rightarrow>
            p\<lparr>sprite := (sprite p)\<lparr>body :=
                Some (b\<lparr>velocity_x := fst (direction p) * moveSpeed p\<rparr>)\<rparr>\<rparr>)"
  proof (cases "body (sprite p)")
    case None
    then show ?thesis by (simp add: move_no_body)
  next
    case (Some b)
    then show ?thesis by (simp add: move_body[OF Some] y)
  qed
  show ?thesis
  proof (cases "moveRight p = moveLeft p")
    case True
    then have "direction p = (0, 0)"
      using up down by (simp add: direction_zero)
    then show ?thesis
      using y m True by (simp split: option.splits)
  next
    case False
    then have "magnitude (direction p) = 1"
      by (simp add: magnitude_direction)
    then show ?thesis
      using y m False by simp
  qed
qed

text \<open>Up and down both held on the ground: no jump, and the horizontal velocity is 0.\<close>

theorem opposing_flags_cancel_witness:
  "moveUp ((new_Player ((add_image 3 4 ''player'')
        \<lparr>body := Some \<lparr>touching_down = True, velocity_x = 7, velocity_y = 9\<rparr>\<rparr>))
        \<lparr>moveUp := True, moveDown := True\<rparr>)
   \<and> moveDown ((new_Player ((add_image 3 4 ''player'')
        \<lparr>body := Some \<lparr>touching_down = True, velocity_x = 7, velocity_y = 9\<rparr>\<rparr>))
        \<lparr>moveUp := True, moveDown := True\<rparr>)
   \<and> body (sprite (move ((new_Player ((add_image 3 4 ''player'')
        \<lparr>body := Some \<lparr>touching_down = True, velocity_x = 7, velocity_y = 9\<rparr>\<rparr>))
        \<lparr>moveUp := True, moveDown := True\<rparr>)))
      = Some \<lparr>touching_down = True, velocity_x = 0, velocity_y = 9\<rparr>"
proof -
  let ?b = "\<lparr>touching_down = True, velocity_x = 7, velocity_y = 9\<rparr>"
  let ?p = "(new_Player ((add_image 3 4 ''player'')\<lparr>body := Some ?b\<rparr>))
              \<lparr>moveUp := True, moveDown := True\<rparr>"
  have u: "moveUp ?p" and d: "moveDown ?p"
    by (simp_all add: new_Player_def add_image_def)
  show ?thesis
    using opposing_flags_cancel[OF u d]
    by (simp add: new_Player_def add_image_def)
qed

subsection \<open>The store and one element\<close>

lemma modify_fields [simp]:
  "blocks (modify h f st) = blocks st"
  "doors (modify h f st) = doors st"
  "ghosts (modify h f st) = ghosts st"
  "keys (modify h f st) = keys st"
  "objectTable (modify h f st) = objectTable st"
  "interactionsTable (modify h f st) = interactionsTable st"
  "the_player (modify h f st) = the_player st"
  "length (objs (modify h f st)) = length (objs st)"
  by (simp_all add: modify_def)

lemma modify_nth:
  "i < length (objs st) \<Longrightarrow>
   objs (modify h f st) ! i = (if i = h then f (objs st ! i) else objs st ! i)"
  by (simp add: modify_def nth_list_update)

lemma sprite_object_fresh [simp]:
  "obj_id (sprite_object d) = None" "obj_levelIndex (sprite_object d) = None"
  by (simp_all add: sprite_object_def physics_add_image_def)

lemma rect_object_fresh [simp]:
  "obj_id (rect_object d) = None" "obj_levelIndex (rect_object d) = None"
  by (simp_all add: rect_object_def add_rectangle_def Let_def)

lemma step_objs: "objs (element_step st e) = objs st @ object_of e"
  by (cases e) (auto simp: Let_def register_def modify_def split: option.splits)

lemma step_table:
  "objectTable (element_step st e) =
     (case registered_id e of
        None \<Rightarrow> objectTable st
      | Some k \<Rightarrow> AList.update k (e, length (objs st)) (objectTable st))"
  by (cases e) (auto simp: Let_def register_def modify_def split: option.splits)



lemma step_blocks:
  "blocks (element_step st e) =
     blocks st @ (case e of RectE d \<Rightarrow> if rect_function d = Some ''wall'' then [length (objs st)] else [] | _ \<Rightarrow> [])"
  by (cases e) (auto simp: Let_def register_def modify_def split: option.splits)


lemma step_interactionsTable: "interactionsTable (element_step st e) = interactionsTable st"
  by (cases e) (auto simp: Let_def register_def modify_def split: option.splits)

lemma step_player:
  "the_player (element_step st e) =
     (case e of PlayerE px py tex \<Rightarrow> Some (new_Player (add_image px py tex)) | _ \<Rightarrow> the_player st)"
  by (cases e) (auto simp: Let_def register_def modify_def split: option.splits)

declare element_step.simps [simp del]

subsection \<open>The elements pass\<close>

lemma elements_pass_Nil [simp]: "elements_pass st [] = st"
  by (simp add: elements_pass_def)

lemma elements_pass_Cons [simp]:
  "elements_pass st (e # es) = elements_pass (element_step st e) es"
  by (simp add: elements_pass_def)



lemma pass_interactionsTable: "interactionsTable (elements_pass st es) = interactionsTable st"
  by (induction es arbitrary: st) (simp_all add: step_interactionsTable)



lemma pass_blocks_mono: "set (blocks st) \<subseteq> set (blocks (elements_pass st es))"
proof (induction es arbitrary: st)
  case Nil
  show ?case by simp
next
  case (Cons e es)
  have "set (blocks st) \<subseteq> set (blocks (element_step st e))"
    by (simp add: step_blocks)
  also have "\<dots> \<subseteq> set (blocks (elements_pass (element_step st e) es))"
    by (rule Cons.IH)
  finally show ?case by simp
qed

lemma pass_table_keys:
  "distinct (map fst (objectTable st) @ element_ids es) \<Longrightarrow>
   map fst (objectTable (elements_pass st es)) = map fst (objectTable st) @ element_ids es"
proof (induction es arbitrary: st)
  case Nil
  show ?case by simp
next
  case (Cons e es)
  show ?case
  proof (cases "registered_id e")
    case None
    then show ?thesis
      using Cons.IH[of "element_step st e"] Cons.prems by (simp add: step_table)
  next
    case (Some k)
    have new: "k \<notin> set (map fst (objectTable st))"
      using Cons.prems Some by auto
    have keys: "map fst (objectTable (element_step st e)) = map fst (objectTable st) @ [k]"
      using new by (simp add: step_table Some update_keys)
    have "distinct (map fst (objectTable (element_step st e)) @ element_ids es)"
      using Cons.prems Some by (simp add: keys)
    from Cons.IH[OF this] show ?thesis
      by (simp add: keys Some)
  qed
qed


lemma static_lock [simp]: "static_part (lock ob) = static_part ob"
  by (simp add: static_part_def lock_def set_alpha_def)

lemma static_unlock [simp]: "static_part (unlock e ob) = static_part ob"
  by (simp add: static_part_def unlock_def set_alpha_def)

lemma static_obj_id: "static_part a = static_part b \<Longrightarrow> obj_id a = obj_id b"
  by (simp add: static_part_def)

lemma modify_static:
  assumes "\<And>ob. static_part (f ob) = static_part ob"
  shows "map static_part (objs (modify ob f st)) = map static_part (objs st)"
proof (cases "ob < length (objs st)")
  case True
  then show ?thesis
    by (simp add: modify_def map_update assms list_update_same_conv)
next
  case False
  then show ?thesis by (simp add: modify_def list_update_beyond)
qed




lemma table_ok_new [simp]: "table_ok (new_level prev)"
  by (simp add: table_ok_def new_level_def)

lemma groups_ok_new [simp]: "groups_ok (new_level prev)"
  by (simp add: groups_ok_def new_level_def)






subsection \<open>The interactions pass\<close>

lemma enter_rule_fields [simp]:
  "objs (enter_rule r st) = objs st"
  "blocks (enter_rule r st) = blocks st"
  "doors (enter_rule r st) = doors st"
  "ghosts (enter_rule r st) = ghosts st"
  "keys (enter_rule r st) = keys st"
  "objectTable (enter_rule r st) = objectTable st"
  "the_player (enter_rule r st) = the_player st"
  "interactionsTable (enter_rule r st) =
     AList.update (trigger r) (target r, action r) (interactionsTable st)"
  by (simp_all add: enter_rule_def)

lemma interaction_step_eq:
  "interaction_step st r =
     (if action r = ''enable'' then
        (case map_of (objectTable st) (target r) of
           None \<Rightarrow> Inl TypeError
         | Some (desc, ob) \<Rightarrow> Inr (modify ob lock (enter_rule r st)))
      else Inr (enter_rule r st))"
  by (auto simp: interaction_step_def enter_rule_def Let_def split: option.splits)

lemma interaction_step_fields:
  assumes "interaction_step st r = Inr st'"
  shows "blocks st' = blocks st" "doors st' = doors st" "ghosts st' = ghosts st"
    "keys st' = keys st" "objectTable st' = objectTable st" "the_player st' = the_player st"
    "interactionsTable st' = AList.update (trigger r) (target r, action r) (interactionsTable st)"
    "map static_part (objs st') = map static_part (objs st)"
  using assms
  by (auto simp: interaction_step_eq modify_static split: if_splits option.splits)

lemma interactions_pass_fields:
  assumes "interactions_pass st rs = Inr st'"
  shows "blocks st' = blocks st \<and> doors st' = doors st \<and> ghosts st' = ghosts st
    \<and> keys st' = keys st \<and> objectTable st' = objectTable st \<and> the_player st' = the_player st
    \<and> map static_part (objs st') = map static_part (objs st)"
  using assms
proof (induction rs arbitrary: st)
  case Nil
  then show ?case by simp
next
  case (Cons r rs)
  then obtain st1 where 1: "interaction_step st r = Inr st1"
    and 2: "interactions_pass st1 rs = Inr st'"
    by (auto split: sum.splits)
  show ?case
    using Cons.IH[OF 2] interaction_step_fields[OF 1] by simp
qed

lemma interactions_pass_error:
  "(interactions_pass st rs = Inl TypeError) =
     (\<exists>r \<in> set rs. action r = ''enable'' \<and> map_of (objectTable st) (target r) = None)"
proof (induction rs arbitrary: st)
  case Nil
  show ?case by simp
next
  case (Cons r rs)
  show ?case
  proof (cases "interaction_step st r")
    case (Inl e)
    then have "action r = ''enable'' \<and> map_of (objectTable st) (target r) = None"
      by (auto simp: interaction_step_eq split: if_splits option.splits)
    then show ?thesis
      using Inl by (cases e) auto
  next
    case (Inr st1)
    have t: "objectTable st1 = objectTable st"
      using interaction_step_fields(5)[OF Inr] .
    have "\<not> (action r = ''enable'' \<and> map_of (objectTable st) (target r) = None)"
      using Inr by (auto simp: interaction_step_eq split: if_splits option.splits)
    then show ?thesis
      using Inr Cons.IH[of st1] by (auto simp: t)
  qed
qed

lemma interactions_pass_triggers:
  "interactions_pass st rs = Inr st' \<Longrightarrow>
   distinct (map fst (interactionsTable st) @ map trigger rs) \<Longrightarrow>
   map fst (interactionsTable st') = map fst (interactionsTable st) @ map trigger rs"
proof (induction rs arbitrary: st)
  case Nil
  then show ?case by simp
next
  case (Cons r rs)
  then obtain st1 where 1: "interaction_step st r = Inr st1"
    and 2: "interactions_pass st1 rs = Inr st'"
    by (auto split: sum.splits)
  have new: "trigger r \<notin> set (map fst (interactionsTable st))"
    using Cons.prems(2) by auto
  have k: "map fst (interactionsTable st1) = map fst (interactionsTable st) @ [trigger r]"
    using new by (simp add: interaction_step_fields(7)[OF 1] update_keys)
  have "distinct (map fst (interactionsTable st1) @ map trigger rs)"
    using Cons.prems(2) by (simp add: k)
  from Cons.IH[OF 2 this] show ?case
    by (simp add: k)
qed


subsection \<open>Disabling the ghosts\<close>

lemma disable_fold_fields:
  "blocks (foldl (\<lambda>st g. modify g f st) st gs) = blocks st
   \<and> doors (foldl (\<lambda>st g. modify g f st) st gs) = doors st
   \<and> ghosts (foldl (\<lambda>st g. modify g f st) st gs) = ghosts st
   \<and> keys (foldl (\<lambda>st g. modify g f st) st gs) = keys st
   \<and> objectTable (foldl (\<lambda>st g. modify g f st) st gs) = objectTable st
   \<and> interactionsTable (foldl (\<lambda>st g. modify g f st) st gs) = interactionsTable st
   \<and> the_player (foldl (\<lambda>st g. modify g f st) st gs) = the_player st
   \<and> length (objs (foldl (\<lambda>st g. modify g f st) st gs)) = length (objs st)"
  by (induction gs arbitrary: st) simp_all


lemma disable_ghosts_fields [simp]:
  "blocks (disable_ghosts st) = blocks st"
  "doors (disable_ghosts st) = doors st"
  "ghosts (disable_ghosts st) = ghosts st"
  "keys (disable_ghosts st) = keys st"
  "objectTable (disable_ghosts st) = objectTable st"
  "interactionsTable (disable_ghosts st) = interactionsTable st"
  "the_player (disable_ghosts st) = the_player st"
  "length (objs (disable_ghosts st)) = length (objs st)"
  using disable_fold_fields[of "\<lambda>ob. ob\<lparr>body_enable := False\<rparr>" st "ghosts st"]
  by (simp_all add: disable_ghosts_def)



subsection \<open>The whole of create\<close>


lemma update_new: "k \<notin> fst ` set al \<Longrightarrow> AList.update k v al = al @ [(k, v)]"
  by (induction al) auto

lemma pass_table_descs:
  "distinct (map fst (objectTable st) @ element_ids es) \<Longrightarrow>
   map (fst \<circ> snd) (objectTable (elements_pass st es))
     = map (fst \<circ> snd) (objectTable st) @ id_bearing es"
proof (induction es arbitrary: st)
  case Nil
  show ?case by (simp add: id_bearing_def)
next
  case (Cons e es)
  show ?case
  proof (cases "registered_id e")
    case None
    then show ?thesis
      using Cons.IH[of "element_step st e"] Cons.prems
      by (simp add: step_table id_bearing_def)
  next
    case (Some k)
    have new: "k \<notin> fst ` set (objectTable st)"
      using Cons.prems Some by auto
    have t: "objectTable (element_step st e) = objectTable st @ [(k, e, length (objs st))]"
      using new by (simp add: step_table Some update_new)
    have "distinct (map fst (objectTable (element_step st e)) @ element_ids es)"
      using Cons.prems Some by (simp add: t)
    from Cons.IH[OF this] show ?thesis
      by (simp add: t Some id_bearing_def)
  qed
qed

lemma interactions_pass_table:
  "interactions_pass st rs = Inr st' \<Longrightarrow>
   distinct (map fst (interactionsTable st) @ map trigger rs) \<Longrightarrow>
   interactionsTable st'
     = interactionsTable st @ map (\<lambda>r. (trigger r, target r, action r)) rs"
proof (induction rs arbitrary: st)
  case Nil
  then show ?case by simp
next
  case (Cons r rs)
  then obtain st1 where 1: "interaction_step st r = Inr st1"
    and 2: "interactions_pass st1 rs = Inr st'"
    by (auto split: sum.splits)
  have new: "trigger r \<notin> fst ` set (interactionsTable st)"
    using Cons.prems(2) by auto
  have k: "interactionsTable st1 = interactionsTable st @ [(trigger r, target r, action r)]"
    using new by (simp add: interaction_step_fields(7)[OF 1] update_new)
  have "distinct (map fst (interactionsTable st1) @ map trigger rs)"
    using Cons.prems(2) by (simp add: k)
  from Cons.IH[OF 2 this] show ?case
    by (simp add: k)
qed

lemma length_element_ids: "length (element_ids es) = length (id_bearing es)"
  by (induction es) (auto simp: id_bearing_def split: option.splits)

text \<open>
  Claim C2, as the code has it. When the pass over the elements followed by the pass over
  the interactions completes for a level whose registered identifiers are pairwise
  distinct and whose rules have pairwise distinct triggers, none of them the name
  \<^verbatim>\<open>__proto__\<close> (which makes no entry in a plain object), the object table holds
  exactly one entry for each id-bearing element (a sprite or rect with an identifier that
  is present and not empty), under that element's identifier, so N entries for N such
  elements; and the interaction table holds exactly one entry for each rule, with that
  rule's trigger, target and action, so M entries for M rules; all of these are entries
  of the tables proper. (The model lists the entries in the order of the elements and of
  the rules.) The rest of \<^verbatim>\<open>create\<close> leaves both tables as they are.
\<close>

theorem tables_complete:
  assumes "interactions_pass (elements_pass (new_level prev) (elements d)) (interactions d)
             = Inr st"
    and "distinct (element_ids (elements d))"
    and "distinct (map trigger (interactions d))"
    and "''__proto__'' \<notin> set (element_ids (elements d))"
    and "''__proto__'' \<notin> set (map trigger (interactions d))"
  shows "map fst (objectTable st) = element_ids (elements d)
    \<and> map (fst \<circ> snd) (objectTable st) = id_bearing (elements d)
    \<and> length (objectTable st) = length (id_bearing (elements d))
    \<and> interactionsTable st = map (\<lambda>r. (trigger r, target r, action r)) (interactions d)
    \<and> length (interactionsTable st) = length (interactions d)
    \<and> own_entries (objectTable st) = objectTable st
    \<and> own_entries (interactionsTable st) = interactionsTable st
    \<and> (case create prev d of
          Inl e \<Rightarrow> the_player st = None
        | Inr st' \<Rightarrow>
            objectTable st' = objectTable st \<and> interactionsTable st' = interactionsTable st)"
proof -
  let ?st0 = "elements_pass (new_level prev) (elements d)"
  note 1 = assms(1)
  have t0: "objectTable (new_level prev) = []"
    by (simp add: new_level_def)
  have t: "objectTable st = objectTable ?st0"
    using interactions_pass_fields[OF 1] by simp
  have a: "map fst (objectTable st) = element_ids (elements d)"
    using pass_table_keys[of "new_level prev" "elements d"] assms(2) by (simp add: t t0)
  have b: "map (fst \<circ> snd) (objectTable st) = id_bearing (elements d)"
    using pass_table_descs[of "new_level prev" "elements d"] assms(2) by (simp add: t t0)
  have "length (map (fst \<circ> snd) (objectTable st)) = length (id_bearing (elements d))"
    by (simp only: b)
  then have c: "length (objectTable st) = length (id_bearing (elements d))"
    by simp
  have i0: "interactionsTable ?st0 = []"
    by (simp add: pass_interactionsTable new_level_def)
  have e: "interactionsTable st = map (\<lambda>r. (trigger r, target r, action r)) (interactions d)"
    using interactions_pass_table[OF 1] assms(3) by (simp add: i0)
  then have f: "length (interactionsTable st) = length (interactions d)"
    by simp
  have g: "(case create prev d of
          Inl e \<Rightarrow> the_player st = None
        | Inr st' \<Rightarrow>
            objectTable st' = objectTable st \<and> interactionsTable st' = interactionsTable st)"
    using 1 by (simp add: create_def Let_def split: option.splits)
  have "''__proto__'' \<notin> set (map fst (objectTable st))"
    using assms(4) by (simp only: a) simp
  then have h: "own_entries (objectTable st) = objectTable st"
    by (simp add: own_entries_def filter_id_conv) force
  have "''__proto__'' \<notin> set (map fst (interactionsTable st))"
    using assms(5) by (simp add: e comp_def)
  then have i: "own_entries (interactionsTable st) = interactionsTable st"
    by (simp add: own_entries_def filter_id_conv) force
  show ?thesis
    using a b c e f g h i by simp
qed

lemma pass_table_dom:
  "fst ` set (objectTable (elements_pass st es)) = fst ` set (objectTable st) \<union> set (element_ids es)"
proof (induction es arbitrary: st)
  case Nil
  show ?case by simp
next
  case (Cons e es)
  show ?case
    by (cases "registered_id e") (auto simp: Cons.IH step_table dom_update)
qed

lemma create_error:
  "(create prev d = Inl TypeError) =
     ((\<exists>r \<in> set (interactions d).
          action r = ''enable'' \<and> target r \<notin> set (element_ids (elements d)))
      \<or> the_player (elements_pass (new_level prev) (elements d)) = None)"
proof -
  let ?st0 = "elements_pass (new_level prev) (elements d)"
  have dom: "\<And>k. (map_of (objectTable ?st0) k = None) = (k \<notin> set (element_ids (elements d)))"
    using pass_table_dom[of "new_level prev" "elements d"]
    by (simp add: map_of_eq_None_iff new_level_def)
  show ?thesis
  proof (cases "interactions_pass ?st0 (interactions d)")
    case (Inl e)
    then have "interactions_pass ?st0 (interactions d) = Inl TypeError"
      by (cases e) simp
    then show ?thesis
      using interactions_pass_error[of ?st0 "interactions d"]
      by (simp add: create_def Let_def dom)
  next
    case (Inr st1)
    then have "\<not> (\<exists>r \<in> set (interactions d).
          action r = ''enable'' \<and> target r \<notin> set (element_ids (elements d)))"
      using interactions_pass_error[of ?st0 "interactions d"] by (simp add: dom)
    moreover have "the_player st1 = the_player ?st0"
      using interactions_pass_fields[OF Inr] by simp
    ultimately show ?thesis
      using Inr by (auto simp: create_def Let_def split: option.splits)
  qed
qed

subsection \<open>The dispatcher\<close>

lemma destroyed_lock [simp]: "destroyed (lock ob) = destroyed ob"
  by (simp add: lock_def set_alpha_def)

lemma destroyed_unlock [simp]: "destroyed (unlock e ob) = destroyed ob"
  by (simp add: unlock_def set_alpha_def)

lemma destroy_fields [simp]:
  "blocks (destroy k st) = blocks st"
  "doors (destroy k st) = doors st"
  "ghosts (destroy k st) = ghosts st"
  "keys (destroy k st) = keys st"
  "objectTable (destroy k st) = objectTable st"
  "interactionsTable (destroy k st) = interactionsTable st"
  "the_player (destroy k st) = the_player st"
  "length (objs (destroy k st)) = length (objs st)"
  by (simp_all add: destroy_def)

lemma destroy_nth:
  "i < length (objs st) \<Longrightarrow>
   objs (destroy k st) ! i = (if i = k then (objs st ! i)\<lparr>destroyed := True\<rparr> else objs st ! i)"
  by (simp add: destroy_def modify_nth)

lemma key_overlap_length:
  "length (objs (state_after (key_overlap st k))) = length (objs st)"
  by (simp add: key_overlap_def state_after_def Let_def split: option.splits prod.splits)

lemma key_overlap_found:
  "map_of (interactionsTable st) (property_name (obj_id (objs st ! key))) = Some (tgt, act) \<Longrightarrow>
   key_overlap st key =
     (if act = ''enable'' then
        (case map_of (objectTable st) tgt of
           None \<Rightarrow> Inl (TypeError, destroy key st)
         | Some (desc, obj) \<Rightarrow> Inr (modify obj (unlock desc) (destroy key st)))
      else if act = ''disable'' then
        (case map_of (objectTable st) tgt of
           None \<Rightarrow> Inl (TypeError, destroy key st)
         | Some (desc, obj) \<Rightarrow> Inr (modify obj lock (destroy key st)))
      else Inr (destroy key st))"
  by (simp add: key_overlap_def Let_def)

lemma key_overlap_not_found:
  "map_of (interactionsTable st) (property_name (obj_id (objs st ! key))) = None \<Longrightarrow>
   key_overlap st key =
     (if inherited (interactionsTable st) (property_name (obj_id (objs st ! key)))
      then Inr (destroy key st) else Inl (TypeError, st))"
  by (simp add: key_overlap_def Let_def)

lemma key_overlap_keys:
  "keys (state_after (key_overlap st k)) = keys st"
  by (simp add: key_overlap_def state_after_def Let_def split: option.splits prod.splits)

lemma key_overlap_destroyed:
  "i < length (objs st) \<Longrightarrow> destroyed (objs st ! i) \<Longrightarrow>
   destroyed (objs (state_after (key_overlap st k)) ! i)"
  by (simp add: key_overlap_def state_after_def Let_def modify_nth destroy_nth
      split: option.splits prod.splits)

lemma key_overlap_destroys:
  "k < length (objs st) \<Longrightarrow>
   map_of (interactionsTable st) (property_name (obj_id (objs st ! k))) = Some v \<Longrightarrow>
   destroyed (objs (state_after (key_overlap st k)) ! k)"
  by (simp add: key_overlap_def state_after_def Let_def modify_nth destroy_nth
      split: option.splits prod.splits)

lemma overlap_event_destroyed:
  "destroyed (objs st ! k) \<Longrightarrow> overlap_event st k = Inr st"
  by (simp add: overlap_event_def)

lemma overlap_event_keeps:
  "i < length (objs st) \<Longrightarrow> destroyed (objs st ! i) \<Longrightarrow>
   i < length (objs (state_after (overlap_event st k)))
   \<and> destroyed (objs (state_after (overlap_event st k)) ! i)"
  by (simp add: overlap_event_def key_overlap_length key_overlap_destroyed)
     (simp add: state_after_def)

lemma events_skip:
  "k < length (objs st) \<Longrightarrow> destroyed (objs st ! k) \<Longrightarrow>
   events st ks = events st (filter (\<lambda>x. x \<noteq> k) ks)"
proof (induction ks arbitrary: st)
  case Nil
  show ?case by simp
next
  case (Cons x ks)
  show ?case
  proof (cases "x = k")
    case True
    then have "state_after (overlap_event st x) = st"
      using Cons.prems by (simp add: overlap_event_destroyed state_after_def)
    then show ?thesis
      using Cons.IH[OF Cons.prems] True by simp
  next
    case False
    have "k < length (objs (state_after (overlap_event st x)))"
      "destroyed (objs (state_after (overlap_event st x)) ! k)"
      using overlap_event_keeps[OF Cons.prems] by simp_all
    from Cons.IH[OF this] show ?thesis
      using False by simp
  qed
qed

text \<open>
  Claim C6. When the engine reports the overlap of the player with a key that still
  exists and has a rule, the callback runs and destroys the key (also when it then throws
  for a missing target). A second overlap event for that key changes nothing, so it has no
  effect on any target object; and in every later run of overlap events those for this
  key can be left out without changing the outcome: the key fires its rule at most once.
\<close>

theorem key_one_shot:
  assumes "key \<in> set (keys st)" and "key < length (objs st)"
    and "\<not> destroyed (objs st ! key)"
    and "map_of (interactionsTable st) (property_name (obj_id (objs st ! key))) = Some v"
  shows "overlap_event st key = key_overlap st key
    \<and> destroyed (objs (state_after (overlap_event st key)) ! key)
    \<and> overlap_event (state_after (overlap_event st key)) key
        = Inr (state_after (overlap_event st key))
    \<and> events (state_after (overlap_event st key)) ks
        = events (state_after (overlap_event st key)) (filter (\<lambda>x. x \<noteq> key) ks)"
proof -
  let ?st' = "state_after (overlap_event st key)"
  have 1: "overlap_event st key = key_overlap st key"
    using assms(1-3) by (simp add: overlap_event_def)
  have 2: "destroyed (objs ?st' ! key)"
    using key_overlap_destroys[OF assms(2,4)] by (simp add: 1)
  have 3: "key < length (objs ?st')"
    using assms(2) by (simp add: 1 key_overlap_length)
  show ?thesis
    using 1 2 overlap_event_destroyed[OF 2] events_skip[OF 3 2] by simp
qed

text \<open>
  Claim C3, as the code has it. A rule whose target is missing from the object table
  throws in the interactions pass exactly when its action is \<^verbatim>\<open>enable\<close>; with any
  other action it is entered into the interaction table and the pass goes on. So
  \<^verbatim>\<open>create\<close> throws exactly when some \<^verbatim>\<open>enable\<close> rule names a target that no
  element registers, or no player exists. The overlap with a key whose identifier has no
  entry in the interaction table throws before anything is changed, unless the table
  inherits a member of that name (a member of \<^verbatim>\<open>Object.prototype\<close> such as
  \<^verbatim>\<open>constructor\<close>): then nothing throws, the key is destroyed and nothing else is
  changed. The overlap with a key whose rule names a missing target destroys the key and
  then throws when the action is \<^verbatim>\<open>enable\<close> or \<^verbatim>\<open>disable\<close>, and does nothing
  more for any other action.
\<close>

theorem missing_reference:
  "(map_of (objectTable st) (target r) = None \<longrightarrow>
      interaction_step st r =
        (if action r = ''enable'' then Inl TypeError
         else Inr (st\<lparr>interactionsTable :=
                 AList.update (trigger r) (target r, action r) (interactionsTable st)\<rparr>)))
   \<and> ((create prev d = Inl TypeError) =
        ((\<exists>r \<in> set (interactions d).
            action r = ''enable'' \<and> target r \<notin> set (element_ids (elements d)))
         \<or> the_player (elements_pass (new_level prev) (elements d)) = None))
   \<and> (map_of (interactionsTable st1) (property_name (obj_id (objs st1 ! key1))) = None \<longrightarrow>
        key_overlap st1 key1 =
          (if inherited (interactionsTable st1) (property_name (obj_id (objs st1 ! key1)))
           then Inr (destroy key1 st1)
           else Inl (TypeError, st1)))
   \<and> (map_of (interactionsTable st2) (property_name (obj_id (objs st2 ! key2)))
          = Some (tgt, act)
        \<and> map_of (objectTable st2) tgt = None \<longrightarrow>
        key_overlap st2 key2 =
          (if act = ''enable'' \<or> act = ''disable'' then Inl (TypeError, destroy key2 st2)
           else Inr (destroy key2 st2)))"
proof -
  have 1: "map_of (objectTable st) (target r) = None \<longrightarrow>
      interaction_step st r =
        (if action r = ''enable'' then Inl TypeError
         else Inr (st\<lparr>interactionsTable :=
                 AList.update (trigger r) (target r, action r) (interactionsTable st)\<rparr>))"
    by (simp add: interaction_step_def Let_def)
  have 3: "map_of (interactionsTable st1) (property_name (obj_id (objs st1 ! key1))) = None \<longrightarrow>
        key_overlap st1 key1 =
          (if inherited (interactionsTable st1) (property_name (obj_id (objs st1 ! key1)))
           then Inr (destroy key1 st1)
           else Inl (TypeError, st1))"
    by (simp add: key_overlap_not_found)
  have 4: "map_of (interactionsTable st2) (property_name (obj_id (objs st2 ! key2)))
          = Some (tgt, act)
        \<and> map_of (objectTable st2) tgt = None \<longrightarrow>
        key_overlap st2 key2 =
          (if act = ''enable'' \<or> act = ''disable'' then Inl (TypeError, destroy key2 st2)
           else Inr (destroy key2 st2))"
    by (simp add: key_overlap_found)
  show ?thesis
    using 1 3 4 create_error[of prev d] by (simp only: simp_thms)
qed


subsection \<open>Rect normalisation\<close>

lemma min_js_min: "min_js a b = min a b"
  by (auto simp: min_js_def min_def)

lemma max_js_max: "max_js a b = max a b"
  by (auto simp: max_js_def max_def)

text \<open>
  Claim C4. For every rect, the normalised rectangle has \<open>x\<close> and \<open>y\<close> the smaller of the
  two corner coordinates and \<open>w\<close> and \<open>h\<close> the larger minus the smaller, so both are at
  least 0; exchanging the two corners gives the same rectangle; the rectangle object is
  made with these four numbers. In particular the corners (50, 50) and (10, 30) give
  x = 10, y = 30, w = 40, h = 20, and with the function \<^verbatim>\<open>wall\<close> the step for the
  element puts the new object, of that shape, into the blocks group.
\<close>

theorem rect_normalized:
  "normalize d =
     \<lparr>rect_x = min (rect_x1 d) (rect_x2 d), rect_y = min (rect_y1 d) (rect_y2 d),
      rect_w = max (rect_x1 d) (rect_x2 d) - min (rect_x1 d) (rect_x2 d),
      rect_h = max (rect_y1 d) (rect_y2 d) - min (rect_y1 d) (rect_y2 d)\<rparr>
   \<and> 0 \<le> rect_w (normalize d) \<and> 0 \<le> rect_h (normalize d)
   \<and> normalize (d\<lparr>rect_x1 := rect_x2 d, rect_y1 := rect_y2 d,
                    rect_x2 := rect_x1 d, rect_y2 := rect_y1 d\<rparr>) = normalize d
   \<and> shape (rect_object d) =
       RectShape (rect_x (normalize d)) (rect_y (normalize d)) (rect_w (normalize d))
         (rect_h (normalize d)) (colorCompose (rect_red d) (rect_green d) (rect_blue d))
   \<and> normalize (d\<lparr>rect_x1 := 50, rect_y1 := 50, rect_x2 := 10, rect_y2 := 30\<rparr>)
       = \<lparr>rect_x = 10, rect_y = 30, rect_w = 40, rect_h = 20\<rparr>
   \<and> blocks (element_step st (RectE (d\<lparr>rect_x1 := 50, rect_y1 := 50, rect_x2 := 10,
          rect_y2 := 30, rect_function := Some ''wall''\<rparr>))) = blocks st @ [length (objs st)]
   \<and> shape (objs (element_step st (RectE (d\<lparr>rect_x1 := 50, rect_y1 := 50, rect_x2 := 10,
          rect_y2 := 30, rect_function := Some ''wall''\<rparr>))) ! length (objs st))
       = RectShape 10 30 40 20 (colorCompose (rect_red d) (rect_green d) (rect_blue d))"
proof -
  have 1: "normalize d =
     \<lparr>rect_x = min (rect_x1 d) (rect_x2 d), rect_y = min (rect_y1 d) (rect_y2 d),
      rect_w = max (rect_x1 d) (rect_x2 d) - min (rect_x1 d) (rect_x2 d),
      rect_h = max (rect_y1 d) (rect_y2 d) - min (rect_y1 d) (rect_y2 d)\<rparr>" for d
    by (simp add: normalize_def Let_def min_js_min max_js_max)
  have 2: "0 \<le> rect_w (normalize d)" "0 \<le> rect_h (normalize d)"
    by (simp_all add: 1)
  have 3: "normalize (d\<lparr>rect_x1 := rect_x2 d, rect_y1 := rect_y2 d,
                    rect_x2 := rect_x1 d, rect_y2 := rect_y1 d\<rparr>) = normalize d"
    by (simp add: 1 min.commute max.commute)
  have 4: "shape (rect_object d) =
       RectShape (rect_x (normalize d)) (rect_y (normalize d)) (rect_w (normalize d))
         (rect_h (normalize d)) (colorCompose (rect_red d) (rect_green d) (rect_blue d))" for d
    by (simp add: rect_object_def add_rectangle_def Let_def)
  have 5: "normalize (d\<lparr>rect_x1 := 50, rect_y1 := 50, rect_x2 := 10, rect_y2 := 30\<rparr>)
       = \<lparr>rect_x = 10, rect_y = 30, rect_w = 40, rect_h = 20\<rparr>" for d
    by (simp add: 1)
  let ?w = "d\<lparr>rect_x1 := 50, rect_y1 := 50, rect_x2 := 10,
          rect_y2 := 30, rect_function := Some ''wall''\<rparr>"
  have 6: "blocks (element_step st (RectE ?w)) = blocks st @ [length (objs st)]"
    by (simp add: step_blocks)
  have "normalize ?w = \<lparr>rect_x = 10, rect_y = 30, rect_w = 40, rect_h = 20\<rparr>"
    by (simp add: 1)
  then have 7: "shape (objs (element_step st (RectE ?w)) ! length (objs st))
       = RectShape 10 30 40 20 (colorCompose (rect_red d) (rect_green d) (rect_blue d))"
    by (simp add: step_objs 4)
  show ?thesis
    using 1[of d] 2 3 4[of d] 5[of d] 6 7 by (simp only: simp_thms)
qed

subsection \<open>A key and the door it enables\<close>










subsection \<open>The example levels, evaluated\<close>

lemmas level_defs =
  create_def elements_pass_def element_step.simps new_level_def Let_def register_def
  modify_def interaction_step_def sprite_object_def rect_object_def physics_add_image_def
  add_rectangle_def lock_def set_alpha_def disable_ghosts_def normalize_def min_js_def
  max_js_def colorCompose_eq scenario_key_def scenario_door_def

lemma scenario_loads:
  "create None (scenario a) =
     Inr \<lparr>objs =
            [\<lparr>shape = ImageShape 100 200 ''key'', origin = None, tint = Some 16762880,
              alpha = Num 1, fillAlpha = None, active = True, body_enable = True,
              obj_id = Some ''k1'', obj_levelIndex = None, destroyed = False\<rparr>,
             \<lparr>shape = RectShape 300 100 40 80 5913630, origin = Some (0, 0), tint = None,
              alpha = Num (1 / 2), fillAlpha = Some (clamp a 0 1), active = False,
              body_enable = False, obj_id = Some ''door1'', obj_levelIndex = Some ''2'',
              destroyed = False\<rparr>],
          blocks = [], doors = [1], ghosts = [], keys = [0],
          objectTable =
            [(''k1'', SpriteE scenario_key, 0), (''door1'', RectE (scenario_door a), 1)],
          interactionsTable = [(''k1'', ''door1'', ''enable'')],
          the_player = Some (new_Player (add_image 10 20 ''player''))\<rparr>"
  by (simp add: scenario_def level_defs) (simp add: clamp_def)


lemma duplicate_loads:
  "create None duplicate_level =
     Inr \<lparr>objs =
            [\<lparr>shape = RectShape 300 100 40 80 5913630, origin = Some (0, 0), tint = None,
              alpha = Num 1, fillAlpha = Some 1, active = True, body_enable = True,
              obj_id = Some ''door1'', obj_levelIndex = Some ''2'', destroyed = False\<rparr>,
             \<lparr>shape = RectShape 500 100 40 80 5913630, origin = Some (0, 0), tint = None,
              alpha = Num (1 / 2), fillAlpha = Some 1, active = False,
              body_enable = False, obj_id = Some ''door1'', obj_levelIndex = Some ''2'',
              destroyed = False\<rparr>],
          blocks = [], doors = [0, 1], ghosts = [], keys = [],
          objectTable =
            [(''door1'', RectE ((scenario_door 1)\<lparr>rect_x1 := 500, rect_x2 := 540\<rparr>), 1)],
          interactionsTable = [(''k1'', ''door1'', ''enable'')],
          the_player = Some (new_Player (add_image 10 20 ''player''))\<rparr>"
  by (simp add: duplicate_level_def level_defs clamp_def)

lemma dangling_loads:
  "act \<noteq> ''enable'' \<Longrightarrow>
   create None (dangling_level act) =
     Inr \<lparr>objs =
            [\<lparr>shape = ImageShape 100 200 ''key'', origin = None, tint = Some 16762880,
              alpha = Num 1, fillAlpha = None, active = True, body_enable = True,
              obj_id = Some ''k1'', obj_levelIndex = None, destroyed = False\<rparr>],
          blocks = [], doors = [], ghosts = [], keys = [0],
          objectTable = [(''k1'', SpriteE scenario_key, 0)],
          interactionsTable = [(''k1'', ''nowhere'', act)],
          the_player = Some (new_Player (add_image 10 20 ''player''))\<rparr>"
  by (simp add: dangling_level_def level_defs clamp_def)

lemma stray_key_loads:
  "i \<noteq> [] \<Longrightarrow>
   create None (stray_key_level i) =
     Inr \<lparr>objs =
            [\<lparr>shape = ImageShape 100 200 ''key'', origin = None, tint = Some 16762880,
              alpha = Num 1, fillAlpha = None, active = True, body_enable = True,
              obj_id = Some i, obj_levelIndex = None, destroyed = False\<rparr>],
          blocks = [], doors = [], ghosts = [], keys = [0],
          objectTable = [(i, SpriteE (scenario_key\<lparr>sprite_id := Some i\<rparr>), 0)],
          interactionsTable = [],
          the_player = Some (new_Player (add_image 10 20 ''player''))\<rparr>"
  by (simp add: stray_key_level_def level_defs clamp_def)





text \<open>
  The claim as the specification states it fails when identifiers or triggers repeat: two
  id-bearing elements and two rules leave one entry in each table. It also fails for an
  element with the identifier \<^verbatim>\<open>__proto__\<close>: the one id-bearing element leaves no
  entry in the table proper.
\<close>

theorem tables_complete_counterexample:
  "length (id_bearing (elements duplicate_level)) = 2
   \<and> length (interactions duplicate_level) = 2
   \<and> \<not> isl (create None duplicate_level)
   \<and> length (objectTable (projr (create None duplicate_level))) = 1
   \<and> length (interactionsTable (projr (create None duplicate_level))) = 1
   \<and> length (id_bearing (elements (stray_key_level ''__proto__''))) = 1
   \<and> \<not> isl (create None (stray_key_level ''__proto__''))
   \<and> length (own_entries (objectTable (projr (create None (stray_key_level ''__proto__''))))) = 0"
  by (simp add: duplicate_loads stray_key_loads own_entries_def)
     (simp add: duplicate_level_def stray_key_level_def id_bearing_def scenario_door_def
        scenario_key_def)

text \<open>The scenario has two id-bearing elements and one rule, and tables of 2 and 1 entries.\<close>

theorem tables_complete_witness:
  "\<not> isl (create None (scenario (4 / 5)))
   \<and> length (id_bearing (elements (scenario (4 / 5)))) = 2
   \<and> length (objectTable (projr (create None (scenario (4 / 5))))) = 2
   \<and> map fst (objectTable (projr (create None (scenario (4 / 5))))) = [''k1'', ''door1'']
   \<and> length (interactions (scenario (4 / 5))) = 1
   \<and> length (interactionsTable (projr (create None (scenario (4 / 5))))) = 1
   \<and> length (own_entries (objectTable (projr (create None (scenario (4 / 5)))))) = 2"
proof -
  let ?d = "scenario (4 / 5)"
  let ?st = "projr (interactions_pass (elements_pass (new_level None) (elements ?d))
                (interactions ?d))"
  have pass: "interactions_pass (elements_pass (new_level None) (elements ?d))
      (interactions ?d) = Inr ?st"
    using scenario_loads[of "4 / 5"]
    by (auto simp: create_def Let_def split: sum.splits)
  have ids: "element_ids (elements ?d) = [''k1'', ''door1'']"
    by (simp add: scenario_def scenario_key_def scenario_door_def)
  have 1: "distinct (element_ids (elements ?d))"
    by (simp add: ids)
  have 2: "distinct (map trigger (interactions ?d))"
    by (simp add: scenario_def)
  have 3: "''__proto__'' \<notin> set (element_ids (elements ?d))"
    by (simp add: ids)
  have 4: "''__proto__'' \<notin> set (map trigger (interactions ?d))"
    by (simp add: scenario_def)
  have n: "length (id_bearing (elements ?d)) = 2" "length (interactions ?d) = 1"
    by (simp_all add: scenario_def scenario_key_def scenario_door_def id_bearing_def)
  have l: "\<not> isl (create None ?d)"
    by (simp add: scenario_loads)
  then obtain st' where st': "create None ?d = Inr st'"
    by (cases "create None ?d") auto
  show ?thesis
    using tables_complete[OF pass 1 2 3 4] l by (auto simp: ids n st')
qed

text \<open>
  The claim as the specification states it fails for the action \<^verbatim>\<open>disable\<close>: the
  level loads, and the rule with the missing target is in the interaction table. It also
  fails for a key with the identifier \<^verbatim>\<open>constructor\<close> and no rule: the overlap
  throws nothing and destroys the key.
\<close>

theorem missing_reference_counterexample:
  "\<not> isl (create None (dangling_level ''disable''))
   \<and> map_of (objectTable (projr (create None (dangling_level ''disable'')))) ''nowhere'' = None
   \<and> map_of (interactionsTable (projr (create None (dangling_level ''disable'')))) ''k1''
       = Some (''nowhere'', ''disable'')
   \<and> \<not> isl (create None (stray_key_level ''constructor''))
   \<and> obj_id (objs (projr (create None (stray_key_level ''constructor''))) ! 0)
       = Some ''constructor''
   \<and> map_of (interactionsTable (projr (create None (stray_key_level ''constructor''))))
        ''constructor'' = None
   \<and> key_overlap (projr (create None (stray_key_level ''constructor''))) 0
       = Inr (destroy 0 (projr (create None (stray_key_level ''constructor''))))"
  by (simp add: dangling_loads stray_key_loads key_overlap_def inherited_def
      object_prototype_names_def Let_def)



text \<open>The key of the scenario: destroyed by the first overlap, inert afterwards.\<close>

theorem key_one_shot_witness:
  "\<not> isl (create None (scenario 1))
   \<and> 0 \<in> set (keys (projr (create None (scenario 1))))
   \<and> \<not> destroyed (objs (projr (create None (scenario 1))) ! 0)
   \<and> destroyed (objs (state_after (overlap_event (projr (create None (scenario 1))) 0)) ! 0)
   \<and> overlap_event (state_after (overlap_event (projr (create None (scenario 1))) 0)) 0
       = Inr (state_after (overlap_event (projr (create None (scenario 1))) 0))
   \<and> events (state_after (overlap_event (projr (create None (scenario 1))) 0)) [0, 0]
       = events (state_after (overlap_event (projr (create None (scenario 1))) 0)) []"
proof -
  let ?st = "projr (create None (scenario 1))"
  have 1: "0 \<in> set (keys ?st)" and 2: "0 < length (objs ?st)"
    and 3: "\<not> destroyed (objs ?st ! 0)"
    and 4: "map_of (interactionsTable ?st) (property_name (obj_id (objs ?st ! 0)))
              = Some (''door1'', ''enable'')"
    by (simp_all add: scenario_loads)
  have f: "filter (\<lambda>x. x \<noteq> 0) [0, 0 :: nat] = []"
    by simp
  have 0: "\<not> isl (create None (scenario 1))"
    by (simp add: scenario_loads)
  show ?thesis
    using key_one_shot[OF 1 2 3 4, of "[0, 0]"] 0 1 3 unfolding f by blast
qed

text \<open>
  Each case at an example: a missing target with \<^verbatim>\<open>enable\<close> in the pass and in
  \<^verbatim>\<open>create\<close>, the overlap with a key \<^verbatim>\<open>k9\<close> that has no rule, and the overlap
  with a key whose \<^verbatim>\<open>disable\<close> rule has no target.
\<close>

theorem missing_reference_witness:
  "map_of (objectTable (projr (create None (dangling_level ''disable'')))) ''nowhere'' = None
   \<and> interaction_step (projr (create None (dangling_level ''disable'')))
        \<lparr>trigger = ''k1'', target = ''nowhere'', action = ''enable''\<rparr> = Inl TypeError
   \<and> create None (dangling_level ''enable'') = Inl TypeError
   \<and> map_of (interactionsTable (projr (create None (stray_key_level ''k9''))))
        (property_name (obj_id (objs (projr (create None (stray_key_level ''k9''))) ! 0))) = None
   \<and> key_overlap (projr (create None (stray_key_level ''k9''))) 0
       = Inl (TypeError, projr (create None (stray_key_level ''k9'')))
   \<and> map_of (interactionsTable (projr (create None (dangling_level ''disable''))))
        (property_name (obj_id (objs (projr (create None (dangling_level ''disable''))) ! 0)))
       = Some (''nowhere'', ''disable'')
   \<and> key_overlap (projr (create None (dangling_level ''disable''))) 0
       = Inl (TypeError, destroy 0 (projr (create None (dangling_level ''disable''))))"
proof -
  let ?dl = "projr (create None (dangling_level ''disable''))"
  let ?sk = "projr (create None (stray_key_level ''k9''))"
  let ?r = "\<lparr>trigger = ''k1'', target = ''nowhere'', action = ''enable''\<rparr>"
  have 1: "map_of (objectTable ?dl) (target ?r) = None"
    by (simp add: dangling_loads)
  have 2: "\<exists>r \<in> set (interactions (dangling_level ''enable'')).
      action r = ''enable'' \<and> target r \<notin> set (element_ids (elements (dangling_level ''enable'')))"
    by (simp add: dangling_level_def scenario_key_def)
  have 3: "map_of (interactionsTable ?sk) (property_name (obj_id (objs ?sk ! 0))) = None"
    "\<not> inherited (interactionsTable ?sk) (property_name (obj_id (objs ?sk ! 0)))"
    by (simp_all add: stray_key_loads inherited_def object_prototype_names_def)
  have 4: "map_of (interactionsTable ?dl) (property_name (obj_id (objs ?dl ! 0)))
             = Some (''nowhere'', ''disable'')"
    "map_of (objectTable ?dl) ''nowhere'' = None"
    by (simp_all add: dangling_loads)
  show ?thesis
    using missing_reference[where st = ?dl and r = ?r and prev = None
        and d = "dangling_level ''enable''" and ?st1.0 = ?sk and ?key1.0 = 0
        and ?st2.0 = ?dl and ?key2.0 = 0 and tgt = "''nowhere''" and act = "''disable''"]
      1 2 3 4
    by simp
qed

end
